theory Spec2Isabelle
  imports Main "HOL-Library.Sublist"
begin

section \<open>JavaScript strings\<close>

text \<open>
  A JavaScript string is a sequence of code units; \<open>indexOf\<close> and \<open>slice\<close> count code
  units. The marker and the simulcast template are ASCII, so a string is a \<open>char list\<close>
  here. \<open>s.indexOf(pat)\<close> is the least index at which \<open>pat\<close> occurs in \<open>s\<close>, and
  \<open>-1\<close> when there is none; \<open>s.slice(b, e)\<close> clamps both bounds to the string, a
  negative bound counting from the end.
\<close>

fun indexOf_from :: "nat \<Rightarrow> 'a list \<Rightarrow> 'a list \<Rightarrow> int" where
  "indexOf_from i pat [] = (if prefix pat [] then int i else - 1)"
| "indexOf_from i pat (c # cs) =
     (if prefix pat (c # cs) then int i else indexOf_from (Suc i) pat cs)"

definition indexOf :: "'a list \<Rightarrow> 'a list \<Rightarrow> int" where
  "indexOf s pat = indexOf_from 0 pat s"

definition clamp_index :: "'a list \<Rightarrow> int \<Rightarrow> nat" where
  "clamp_index s k =
     (let len = int (length s)
      in nat (if k < 0 then max (len + k) 0 else min k len))"

definition slice :: "'a list \<Rightarrow> int \<Rightarrow> int \<Rightarrow> 'a list" where
  "slice s b e = take (clamp_index s e - clamp_index s b) (drop (clamp_index s b) s)"

section \<open>Description Mangler: text transforms\<close>

text \<open>
  \<^verbatim>\<open>
  function removeFIDFromOffer(sdp: string) {
    const n = sdp.indexOf('a=ssrc-group:FID')
    return n > 0 ? sdp.slice(0, n) : sdp
  }
  \<close>
\<close>

definition FID_marker :: string where
  "FID_marker = ''a=ssrc-group:FID''"

definition removeFIDFromOffer :: "string \<Rightarrow> string" where
  "removeFIDFromOffer sdp =
     (let n = indexOf sdp FID_marker
      in if n > 0 then slice sdp 0 n else sdp)"

text \<open>The marker occurs in \<open>s\<close> at offset \<open>k\<close>.\<close>

definition occurs_at :: "'a list \<Rightarrow> 'a list \<Rightarrow> nat \<Rightarrow> bool" where
  "occurs_at pat s k = (k \<le> length s \<and> prefix pat (drop k s))"

section \<open>Media streams, session descriptions, the console\<close>

datatype track_kind = audio | video

record MediaStreamTrack =
  track_id :: string
  kind :: track_kind

record MediaStream =
  stream_id :: string
  tracks :: "MediaStreamTrack list"


definition getVideoTracks :: "MediaStream \<Rightarrow> MediaStreamTrack list" where
  "getVideoTracks s = filter (\<lambda>t. kind t = video) (tracks s)"

text \<open>\<open>stream.addTrack(track)\<close> does nothing when the track is already in the stream.\<close>

definition addTrack :: "MediaStreamTrack \<Rightarrow> MediaStream \<Rightarrow> MediaStream" where
  "addTrack t s = (if t \<in> set (tracks s) then s else s\<lparr>tracks := tracks s @ [t]\<rparr>)"

datatype RTCSdpType = Offer | Answer | Pranswer | Rollback

text \<open>
  A session description as \<open>createOffer\<close>, \<open>createAnswer\<close> and the connection's
  description slots hold it: a type tag and the payload text. The source reads the payload
  as \<open>answer.sdp!\<close>, asserting that it is present.
\<close>

record RTCSessionDescription =
  type :: RTCSdpType
  sdp :: string

text \<open>The calls on \<open>logger\<close> (the console), in the order they are made.\<close>

datatype log_entry = Debug string | Warn string | Log string

text \<open>
  \<^verbatim>\<open>
  function getSimulcastInfo(videoStream: MediaStream) {
    const videoTracks = videoStream.getVideoTracks()
    if (!videoTracks.length) {
      logger.warn('No video tracks available in the video stream')
      return ''
    }
    return `a=x-google-flag:conference
  a=ssrc-group:SIM 1 2 3
  a=ssrc:1 cname:localVideo
  a=ssrc:1 msid:${videoStream.id} ${videoTracks[0].id},
  ...
  a=ssrc:3 label:${videoTracks[0].id}`
  }
  \<close>
  The template literal is kept line by line, with the characters the source has at the
  end of some lines (a comma after four of the substitutions, an apostrophe after the
  second \<open>cname\<close>). It returns the text and the diagnostics it logged.
\<close>

definition LF :: char where
  "LF = CHR 0x0A"

definition simulcast_template :: "string \<Rightarrow> string \<Rightarrow> string" where
  "simulcast_template sid tid =
     ''a=x-google-flag:conference'' @ [LF] @
     ''a=ssrc-group:SIM 1 2 3'' @ [LF] @
     ''a=ssrc:1 cname:localVideo'' @ [LF] @
     ''a=ssrc:1 msid:'' @ sid @ '' '' @ tid @ '','' @ [LF] @
     ''a=ssrc:1 mslabel:'' @ sid @ '','' @ [LF] @
     ''a=ssrc:1 label:'' @ tid @ [LF] @
     ''a=ssrc:2 cname:localVideo'' @ [CHR 0x27] @ [LF] @
     ''a=ssrc:2 msid:'' @ sid @ '' '' @ tid @ '','' @ [LF] @
     ''a=ssrc:2 mslabel:'' @ sid @ [LF] @
     ''a=ssrc:2 label:'' @ tid @ [LF] @
     ''a=ssrc:3 cname:localVideo'' @ [LF] @
     ''a=ssrc:3 msid:'' @ sid @ '' '' @ tid @ '','' @ [LF] @
     ''a=ssrc:3 mslabel:'' @ sid @ [LF] @
     ''a=ssrc:3 label:'' @ tid"

definition getSimulcastInfo :: "MediaStream \<Rightarrow> string \<times> log_entry list" where
  "getSimulcastInfo videoStream =
     (let videoTracks = getVideoTracks videoStream
      in case videoTracks of
           [] \<Rightarrow> ('''', [Warn ''No video tracks available in the video stream''])
         | t # _ \<Rightarrow> (simulcast_template (stream_id videoStream) (track_id t), []))"

text \<open>
  The spec's \<open>appendSimulcastBlock(description, localVideoSource)\<close> is the concatenation
  that \<open>mangleSdpToAddSimulcast\<close> writes: the description text followed by the text of
  \<open>getSimulcastInfo\<close>.
\<close>

definition appendSimulcastBlock :: "string \<Rightarrow> MediaStream \<Rightarrow> string" where
  "appendSimulcastBlock description videoStream = description @ fst (getSimulcastInfo videoStream)"

subsection \<open>Reading a descriptor block\<close>

text \<open>
  The lines of a text (split at line feeds, as \<open>text.split('\n')\<close> does), the lines
  that declare an \<open>ssrc\<close> attribute, the id such a line declares it for, and the grouping
  directives.
\<close>

fun split_lines :: "string \<Rightarrow> string list" where
  "split_lines [] = [[]]"
| "split_lines (c # cs) =
     (if c = LF then [] # split_lines cs
      else (case split_lines cs of [] \<Rightarrow> [[c]] | l # ls \<Rightarrow> (c # l) # ls))"

fun join_lines :: "string list \<Rightarrow> string" where
  "join_lines [] = []"
| "join_lines [l] = l"
| "join_lines (l # l' # ls) = l @ LF # join_lines (l' # ls)"

definition ssrc_lines :: "string list \<Rightarrow> string list" where
  "ssrc_lines ls = filter (prefix ''a=ssrc:'') ls"

definition ssrc_id :: "string \<Rightarrow> string" where
  "ssrc_id l = takeWhile (\<lambda>c. c \<noteq> CHR '' '') (drop 7 l)"

definition group_lines :: "string list \<Rightarrow> string list" where
  "group_lines ls = filter (prefix ''a=ssrc-group:'') ls"

text \<open>
  The fourteen lines of the block, as they are read off the template: a header, the
  grouping directive, and four lines for each of the ids 1, 2 and 3.
\<close>

definition simulcast_block_lines :: "string \<Rightarrow> string \<Rightarrow> string list" where
  "simulcast_block_lines sid tid =
     [''a=x-google-flag:conference'',
      ''a=ssrc-group:SIM 1 2 3'',
      ''a=ssrc:1 cname:localVideo'',
      ''a=ssrc:1 msid:'' @ sid @ '' '' @ tid @ '','',
      ''a=ssrc:1 mslabel:'' @ sid @ '','',
      ''a=ssrc:1 label:'' @ tid,
      ''a=ssrc:2 cname:localVideo'' @ [CHR 0x27],
      ''a=ssrc:2 msid:'' @ sid @ '' '' @ tid @ '','',
      ''a=ssrc:2 mslabel:'' @ sid,
      ''a=ssrc:2 label:'' @ tid,
      ''a=ssrc:3 cname:localVideo'',
      ''a=ssrc:3 msid:'' @ sid @ '' '' @ tid @ '','',
      ''a=ssrc:3 mslabel:'' @ sid,
      ''a=ssrc:3 label:'' @ tid]"

section \<open>The connection and the browser\<close>

text \<open>
  The \<open>RTCPeerConnection\<close> is the browser's object. The model keeps the slots the
  source reads: the signaling state, the two descriptions, the tracks of its senders and
  receivers (\<open>None\<close> for a sender or receiver whose track is \<open>null\<close>), and the remote
  candidates handed to \<open>pc.addIceCandidate\<close>, in call order.
\<close>

datatype RTCSignalingState =
  stable | have_local_offer | have_remote_offer | have_local_pranswer | have_remote_pranswer
  | closed

datatype RTCDataChannelState = ch_connecting | ch_open | ch_closing | ch_closed

type_synonym RTCIceCandidate = string

datatype exn = Error string | DOMException string


record RTCPeerConnection =
  signalingState :: RTCSignalingState
  localDescription :: "RTCSessionDescription option"
  remoteDescription :: "RTCSessionDescription option"
  senderTracks :: "MediaStreamTrack option list"
  receiverTracks :: "MediaStreamTrack option list"
  addedIceCandidates :: "RTCIceCandidate list"

text \<open>The calls of \<open>dispose\<close> that its \<open>try\<close> block guards.\<close>

datatype call = DataChannelClose | GetLocalStreams | TrackStop string | PeerConnectionClose

text \<open>
  What the browser does is a parameter of the model: how it applies a remote description,
  which answer it creates, how it applies a local description, whether it accepts a
  remote candidate (\<open>None\<close>) or rejects it, the id it gives a new \<open>MediaStream\<close>, and
  which of the guarded calls of \<open>dispose\<close> throw.
\<close>

record browser =
  setRemoteDescription :: "RTCSessionDescription \<Rightarrow> RTCPeerConnection \<Rightarrow> exn + RTCPeerConnection"
  createAnswer :: "RTCPeerConnection \<Rightarrow> exn + RTCSessionDescription"
  setLocalDescription :: "RTCSessionDescription \<Rightarrow> RTCPeerConnection \<Rightarrow> exn + RTCPeerConnection"
  addIceCandidate_outcome :: "RTCPeerConnection \<Rightarrow> RTCIceCandidate \<Rightarrow> exn option"
  newMediaStream_id :: string
  throws :: "call \<Rightarrow> exn option"

section \<open>Negotiation Peer\<close>

record HTMLVideoElement =
  paused :: bool
  srcObject :: "MediaStream option"
  muted :: bool
  load_calls :: nat

definition pause :: "HTMLVideoElement \<Rightarrow> HTMLVideoElement" where
  "pause v = v\<lparr>paused := True\<rparr>"

definition load :: "HTMLVideoElement \<Rightarrow> HTMLVideoElement" where
  "load v = v\<lparr>load_calls := Suc (load_calls v)\<rparr>"

text \<open>
  The events of the peer's \<open>EventEmitter\<close> that the source gives a meaning, and an
  invocation of a listener: the listener (a number names it), the event it is registered
  or being registered for, and the argument it is called with (\<open>None\<close> for \<open>null\<close> and
  \<open>undefined\<close>).
\<close>

datatype event_name = icecandidate_event | candidategatheringdone_event | other_event string

type_synonym listener = nat

type_synonym invocation = "listener \<times> event_name \<times> RTCIceCandidate option"

text \<open>
  The state of a \<open>WebRtcPeer\<close>: its fields, the variables \<open>candidatesQueueOut\<close> and
  \<open>candidategatheringdone\<close> that the constructor's closures share, the listeners of its
  emitter (those of the two candidate events, and whether the constructor's own
  \<open>newListener\<close> and \<open>_dispose\<close> handlers are still registered), and three traces: the
  console, the listener invocations, and the guarded calls made on the browser.
  \<open>dataChannel\<close> is the \<open>readyState\<close> of \<open>this.dataChannel\<close>, \<open>None\<close> when there is no
  channel. \<open>this.peerConnection\<close> is set by the constructor in every case, so the test
  \<open>if (pc)\<close> of \<open>dispose\<close> always passes.
\<close>

record WebRtcPeer =
  peer_id :: string
  simulcast :: bool
  videoStream :: MediaStream
  localVideo :: "HTMLVideoElement option"
  remoteVideo :: "HTMLVideoElement option"
  peerConnection :: RTCPeerConnection
  dataChannel :: "RTCDataChannelState option"
  candidatesQueueOut :: "RTCIceCandidate option list"
  candidategatheringdone :: bool
  icecandidate_listeners :: "listener list"
  candidategatheringdone_listeners :: "listener list"
  newListener_handler :: bool
  dispose_handler :: bool
  console :: "log_entry list"
  invocations :: "invocation list"
  calls :: "call list"

definition logger :: "log_entry \<Rightarrow> WebRtcPeer \<Rightarrow> WebRtcPeer" where
  "logger e p = p\<lparr>console := console p @ [e]\<rparr>"

text \<open>
  \<^verbatim>\<open>
  private mangleSdpToAddSimulcast(answer: RTCSessionDescriptionInit) {
    if (this.simulcast) {
      logger.debug('Adding multicast info')
      answer = new RTCSessionDescription({
        type: answer.type,
        sdp: removeFIDFromOffer(answer.sdp!) + getSimulcastInfo(this.videoStream)
      })
    }
    return answer
  }
  \<close>
  It returns the description and what it logged.
\<close>

definition mangleSdpToAddSimulcast ::
  "WebRtcPeer \<Rightarrow> RTCSessionDescription \<Rightarrow> RTCSessionDescription \<times> log_entry list" where
  "mangleSdpToAddSimulcast p answer =
     (if simulcast p then
        (let (info, diagnostics) = getSimulcastInfo (videoStream p)
         in (\<lparr>type = type answer, sdp = removeFIDFromOffer (sdp answer) @ info\<rparr>,
             Debug ''Adding multicast info'' # diagnostics))
      else (answer, []))"

text \<open>
  \<^verbatim>\<open>
  public getRemoteStreams() {
    const stream = new MediaStream()
    this.peerConnection.getReceivers().forEach(({ track }) => track && stream.addTrack(track))
    return [stream]
  }
  \<close>
  and \<open>getLocalStreams\<close>, the same over \<open>getSenders()\<close>.
\<close>

definition collect_tracks :: "browser \<Rightarrow> MediaStreamTrack option list \<Rightarrow> MediaStream" where
  "collect_tracks b ts =
     fold (\<lambda>track stream. case track of None \<Rightarrow> stream | Some t \<Rightarrow> addTrack t stream) ts
       \<lparr>stream_id = newMediaStream_id b, tracks = []\<rparr>"

definition getRemoteStreams :: "browser \<Rightarrow> WebRtcPeer \<Rightarrow> MediaStream list" where
  "getRemoteStreams b p = [collect_tracks b (receiverTracks (peerConnection p))]"


text \<open>
  \<^verbatim>\<open>
  private setRemoteVideo() {
    if (!this.remoteVideo) return
    this.remoteVideo.pause()
    const stream = this.getRemoteStreams()[0]
    this.remoteVideo.srcObject = stream
    logger.debug('Remote stream:', stream)
    this.remoteVideo.load()
  }
  \<close>
\<close>

definition setRemoteVideo :: "browser \<Rightarrow> WebRtcPeer \<Rightarrow> WebRtcPeer" where
  "setRemoteVideo b p =
     (case remoteVideo p of
        None \<Rightarrow> p
      | Some v \<Rightarrow>
          (let stream = (case getRemoteStreams b p of [] \<Rightarrow> None | s # _ \<Rightarrow> Some s);
               v' = load ((pause v)\<lparr>srcObject := stream\<rparr>)
           in logger (Debug ''Remote stream:'') (p\<lparr>remoteVideo := Some v'\<rparr>)))"

text \<open>
  \<^verbatim>\<open>
  public async processOffer(sdp: string) {
    const offer = new RTCSessionDescription({ type: 'offer', sdp })
    logger.debug('SDP offer received, setting remote description')
    if (this.peerConnection.signalingState === 'closed') {
      throw new Error('PeerConnection is closed')
    }
    await this.peerConnection.setRemoteDescription(offer)
    this.setRemoteVideo()
    let answer = await this.peerConnection.createAnswer()
    answer = this.mangleSdpToAddSimulcast(answer)
    logger.debug('Created SDP answer')
    const localDescription = this.peerConnection.localDescription
    if (!localDescription) throw new Error('no local description')
    logger.debug('Local description set\n', localDescription.sdp)
    return localDescription.sdp
  }
  \<close>
  The result is the rejection or the returned payload, with the peer as the call leaves
  it. Each \<open>await\<close> is taken as the browser's answer to the call; a rejected call throws
  at the \<open>await\<close>.
\<close>

definition processOffer :: "browser \<Rightarrow> string \<Rightarrow> WebRtcPeer \<Rightarrow> (exn + string) \<times> WebRtcPeer" where
  "processOffer b s p =
     (let offer = \<lparr>type = Offer, sdp = s\<rparr>;
          p0 = logger (Debug ''SDP offer received, setting remote description'') p
      in if signalingState (peerConnection p0) = closed
         then (Inl (Error ''PeerConnection is closed''), p0)
         else
           (case setRemoteDescription b offer (peerConnection p0) of
              Inl e \<Rightarrow> (Inl e, p0)
            | Inr pc1 \<Rightarrow>
                (let p1 = setRemoteVideo b (p0\<lparr>peerConnection := pc1\<rparr>)
                 in case createAnswer b (peerConnection p1) of
                      Inl e \<Rightarrow> (Inl e, p1)
                    | Inr answer \<Rightarrow>
                        (let (answer', logged) = mangleSdpToAddSimulcast p1 answer;
                             p2 = logger (Debug ''Created SDP answer'')
                                    (p1\<lparr>console := console p1 @ logged\<rparr>)
                         in case localDescription (peerConnection p2) of
                              None \<Rightarrow> (Inl (Error ''no local description''), p2)
                            | Some ld \<Rightarrow>
                                (Inr (sdp ld),
                                 logger (Debug (''Local description set'' @ [LF] @ '' '' @ sdp ld))
                                   p2)))))"

subsection \<open>Local candidate routing\<close>

text \<open>
  The emitter's \<open>listenerCount\<close> and \<open>emit\<close>: \<open>emit\<close> calls the listeners of the event
  in registration order. Listeners of other events are not followed.
\<close>

definition listeners_of :: "event_name \<Rightarrow> WebRtcPeer \<Rightarrow> listener list" where
  "listeners_of event p =
     (case event of
        icecandidate_event \<Rightarrow> icecandidate_listeners p
      | candidategatheringdone_event \<Rightarrow> candidategatheringdone_listeners p
      | other_event _ \<Rightarrow> [])"

definition listenerCount :: "event_name \<Rightarrow> WebRtcPeer \<Rightarrow> nat" where
  "listenerCount event p = length (listeners_of event p)"

definition emit :: "event_name \<Rightarrow> RTCIceCandidate option \<Rightarrow> WebRtcPeer \<Rightarrow> WebRtcPeer" where
  "emit event arg p =
     p\<lparr>invocations := invocations p @ map (\<lambda>l. (l, event, arg)) (listeners_of event p)\<rparr>"

text \<open>
  The constructor's listener of the connection's \<open>icecandidate\<close> event; the argument is
  \<open>event.candidate\<close>, \<open>None\<close> when gathering has finished.
  \<^verbatim>\<open>
  pc.addEventListener('icecandidate', (event) => {
    const candidate = event.candidate
    if (this.listenerCount('icecandidate') || this.listenerCount('candidategatheringdone')) {
      let cand
      if (candidate) {
        cand = candidate
        this.emit('icecandidate', cand)
        candidategatheringdone = false
      } else if (!candidategatheringdone) {
        this.emit('candidategatheringdone', cand)
      }
      candidategatheringdone = true
    } else if (!candidategatheringdone) {
      candidatesQueueOut.push(candidate)
      if (!candidate) {
        candidategatheringdone = true
      }
    }
  })
  \<close>
\<close>

definition pc_icecandidate :: "RTCIceCandidate option \<Rightarrow> WebRtcPeer \<Rightarrow> WebRtcPeer" where
  "pc_icecandidate candidate p =
     (if listenerCount icecandidate_event p \<noteq> 0 \<or> listenerCount candidategatheringdone_event p \<noteq> 0 then
        (let p1 = (case candidate of
                     Some cand \<Rightarrow>
                       (emit icecandidate_event (Some cand) p)\<lparr>candidategatheringdone := False\<rparr>
                   | None \<Rightarrow>
                       if \<not> candidategatheringdone p then emit candidategatheringdone_event None p
                       else p)
         in p1\<lparr>candidategatheringdone := True\<rparr>)
      else if \<not> candidategatheringdone p then
        (let p1 = p\<lparr>candidatesQueueOut := candidatesQueueOut p @ [candidate]\<rparr>
         in if candidate = None then p1\<lparr>candidategatheringdone := True\<rparr> else p1)
      else p)"

text \<open>
  The constructor's \<open>newListener\<close> handler. The loop shifts the queue until it is empty;
  its state is the queue and the invocations made so far.
  \<^verbatim>\<open>
  this.on('newListener', (event, listener) => {
    if (event === 'icecandidate' || event === 'candidategatheringdone') {
      while (candidatesQueueOut.length) {
        const candidate = candidatesQueueOut.shift()
        if (!candidate === (event === 'candidategatheringdone')) {
          listener(candidate)
        }
      }
    }
  })
  \<close>
\<close>

fun drain ::
  "event_name \<Rightarrow> listener \<Rightarrow> RTCIceCandidate option list \<times> invocation list \<Rightarrow>
     RTCIceCandidate option list \<times> invocation list" where
  "drain event l ([], made) = ([], made)"
| "drain event l (candidate # queue, made) =
     drain event l
       (queue,
        if (candidate = None) = (event = candidategatheringdone_event)
        then made @ [(l, event, candidate)] else made)"

definition newListener :: "event_name \<Rightarrow> listener \<Rightarrow> WebRtcPeer \<Rightarrow> WebRtcPeer" where
  "newListener event l p =
     (if event = icecandidate_event \<or> event = candidategatheringdone_event then
        (let (queue, made) = drain event l (candidatesQueueOut p, invocations p)
         in p\<lparr>candidatesQueueOut := queue, invocations := made\<rparr>)
      else p)"

text \<open>
  The emitter's \<open>on\<close>: it emits \<open>newListener\<close> before it adds the listener, so the handler
  above runs first, when it is registered.
\<close>

definition on :: "event_name \<Rightarrow> listener \<Rightarrow> WebRtcPeer \<Rightarrow> WebRtcPeer" where
  "on event l p =
     (let p1 = (if newListener_handler p then newListener event l p else p)
      in case event of
           icecandidate_event \<Rightarrow> p1\<lparr>icecandidate_listeners := icecandidate_listeners p1 @ [l]\<rparr>
         | candidategatheringdone_event \<Rightarrow>
             p1\<lparr>candidategatheringdone_listeners := candidategatheringdone_listeners p1 @ [l]\<rparr>
         | other_event _ \<Rightarrow> p1)"


text \<open>The invocations of one listener, in order: what it received.\<close>

definition received :: "listener \<Rightarrow> WebRtcPeer \<Rightarrow> (event_name \<times> RTCIceCandidate option) list" where
  "received l p = map snd (filter (\<lambda>i. fst i = l) (invocations p))"

subsection \<open>Disposal\<close>
















section \<open>Signaling Gate\<close>

text \<open>
  \<open>bufferizeCandidates(pc)\<close> makes the queue, registers a listener of the connection's
  \<open>signalingstatechange\<close> event and returns the function that submits a candidate. The
  gate's state is the connection, the queue, the number of promises the gate has
  returned (a promise is named by its number; an entry of the queue holds the candidate
  and the number of the promise whose \<open>resolve\<close> and \<open>reject\<close> it carries), and the
  trace of the calls of \<open>resolve\<close> and \<open>reject\<close>.
\<close>

datatype settlement = Resolved | Rejected exn

record gate =
  pc :: RTCPeerConnection
  candidatesQueue :: "(RTCIceCandidate \<times> nat) list"
  promises :: nat
  settlements :: "(nat \<times> settlement) list"

definition bufferizeCandidates :: "RTCPeerConnection \<Rightarrow> gate" where
  "bufferizeCandidates c = \<lparr>pc = c, candidatesQueue = [], promises = 0, settlements = []\<rparr>"

text \<open>
  \<open>pc.addIceCandidate(candidate).then(resolve, reject)\<close> for the promise \<open>k\<close>: the call
  is recorded on the connection, and the promise settles as the browser's call does.
\<close>

definition settle :: "exn option \<Rightarrow> settlement" where
  "settle outcome = (case outcome of None \<Rightarrow> Resolved | Some e \<Rightarrow> Rejected e)"

definition pc_addIceCandidate :: "browser \<Rightarrow> RTCIceCandidate \<Rightarrow> nat \<Rightarrow> gate \<Rightarrow> gate" where
  "pc_addIceCandidate b candidate k g =
     g\<lparr>pc := (pc g)\<lparr>addedIceCandidates := addedIceCandidates (pc g) @ [candidate]\<rparr>,
       settlements := settlements g @ [(k, settle (addIceCandidate_outcome b (pc g) candidate))]\<rparr>"

text \<open>
  \<^verbatim>\<open>
  pc.addEventListener('signalingstatechange', () => {
    if (pc.signalingState !== 'stable') return
    candidatesQueue.map(({ candidate, resolve, reject }) =>
      pc.addIceCandidate(candidate).then(resolve, reject))
    candidatesQueue.length = 0
  })
  \<close>
\<close>

fun flush :: "browser \<Rightarrow> (RTCIceCandidate \<times> nat) list \<Rightarrow> gate \<Rightarrow> gate" where
  "flush b [] g = g"
| "flush b ((candidate, k) # queue) g = flush b queue (pc_addIceCandidate b candidate k g)"

definition onsignalingstatechange :: "browser \<Rightarrow> gate \<Rightarrow> gate" where
  "onsignalingstatechange b g =
     (if signalingState (pc g) \<noteq> stable then g
      else (flush b (candidatesQueue g) g)\<lparr>candidatesQueue := []\<rparr>)"

text \<open>
  \<^verbatim>\<open>
  return (candidate: RTCIceCandidate) => new Promise((resolve, reject) => {
    switch (pc.signalingState) {
      case 'closed':
        reject(new Error('PeerConnection object is closed'))
        break
      case 'stable':
        if (pc.remoteDescription) {
          pc.addIceCandidate(candidate).then(resolve, reject)
        } else {
          reject(new Error('No Remote Description'))
        }
        break
      default:
        candidatesQueue.push({ candidate, resolve, reject })
        break
    }
  })
  \<close>
  The result is the number of the promise returned and the gate afterwards.
\<close>

definition reject :: "nat \<Rightarrow> exn \<Rightarrow> gate \<Rightarrow> gate" where
  "reject k e g = g\<lparr>settlements := settlements g @ [(k, Rejected e)]\<rparr>"

definition submit :: "browser \<Rightarrow> RTCIceCandidate \<Rightarrow> gate \<Rightarrow> nat \<times> gate" where
  "submit b candidate g =
     (let k = promises g;
          g0 = g\<lparr>promises := Suc k\<rparr>
      in (k,
          case signalingState (pc g0) of
            closed \<Rightarrow> reject k (Error ''PeerConnection object is closed'') g0
          | stable \<Rightarrow>
              if remoteDescription (pc g0) \<noteq> None then pc_addIceCandidate b candidate k g0
              else reject k (Error ''No Remote Description'') g0
          | _ \<Rightarrow> g0\<lparr>candidatesQueue := candidatesQueue g0 @ [(candidate, k)]\<rparr>))"

text \<open>
  What happens to a gate: a candidate is submitted, or the browser moves the connection
  to a signaling state (with the remote description it then has) and the listener runs.
\<close>

datatype gate_event =
  Submit RTCIceCandidate
  | SignalingStateChange RTCSignalingState "RTCSessionDescription option"

fun gate_step :: "browser \<Rightarrow> gate_event \<Rightarrow> gate \<Rightarrow> gate" where
  "gate_step b (Submit candidate) g = snd (submit b candidate g)"
| "gate_step b (SignalingStateChange s rd) g =
     onsignalingstatechange b (g\<lparr>pc := (pc g)\<lparr>signalingState := s, remoteDescription := rd\<rparr>\<rparr>)"

definition run :: "browser \<Rightarrow> gate_event list \<Rightarrow> gate \<Rightarrow> gate" where
  "run b es g = fold (gate_step b) es g"

definition transitional :: "RTCSignalingState \<Rightarrow> bool" where
  "transitional s = (s \<noteq> stable \<and> s \<noteq> closed)"

definition pending :: "gate \<Rightarrow> nat \<Rightarrow> bool" where
  "pending g k = (k < promises g \<and> k \<notin> set (map fst (settlements g)))"

definition settled_times :: "gate \<Rightarrow> nat \<Rightarrow> nat" where
  "settled_times g k = length (filter (\<lambda>s. fst s = k) (settlements g))"

subsection \<open>Observations on runs of the gate\<close>

text \<open>
  The candidates a list of events submits, in order; an event that leaves a connection
  in a transitional state; an event that leaves a closed connection closed. A gate is
  well-formed when every promise it has returned is either settled (once) or waiting in
  the queue (once), and no other promise is.
\<close>

fun submitted :: "gate_event list \<Rightarrow> RTCIceCandidate list" where
  "submitted [] = []"
| "submitted (Submit candidate # es) = candidate # submitted es"
| "submitted (SignalingStateChange s rd # es) = submitted es"

fun keeps_transitional :: "gate_event \<Rightarrow> bool" where
  "keeps_transitional (Submit candidate) = True"
| "keeps_transitional (SignalingStateChange s rd) = transitional s"

fun keeps_closed :: "gate_event \<Rightarrow> bool" where
  "keeps_closed (Submit candidate) = True"
| "keeps_closed (SignalingStateChange s rd) = (s = closed)"

definition promise_ids :: "gate \<Rightarrow> nat list" where
  "promise_ids g = map fst (settlements g) @ map snd (candidatesQueue g)"

definition gate_inv :: "gate \<Rightarrow> bool" where
  "gate_inv g = (distinct (promise_ids g) \<and> set (promise_ids g) = {..<promises g})"

section \<open>A browser and a peer for concrete runs\<close>

text \<open>
  A browser that follows the offer/answer state machine in its simplest form: a remote
  offer leads to \<open>have-remote-offer\<close>, a local offer to \<open>have-local-offer\<close>, an answer
  back to \<open>stable\<close>; every call on a closed connection is refused; a remote candidate
  is refused while there is no remote description; no guarded call throws. And a peer
  as the constructor leaves it, on a new connection, with a camera stream of one audio
  and one video track and a remote video element.
\<close>

definition plain_browser :: browser where
  "plain_browser =
     \<lparr>setRemoteDescription =
        (\<lambda>d c. if signalingState c = closed then Inl (DOMException ''InvalidStateError'')
                else Inr (c\<lparr>signalingState := (if type d = Offer then have_remote_offer else stable),
                            remoteDescription := Some d\<rparr>)),
      createAnswer =
        (\<lambda>c. if signalingState c = closed then Inl (DOMException ''InvalidStateError'')
              else Inr \<lparr>type = Answer, sdp = ''v=0 answer''\<rparr>),
      setLocalDescription =
        (\<lambda>d c. if signalingState c = closed then Inl (DOMException ''InvalidStateError'')
                else Inr (c\<lparr>signalingState := (if type d = Offer then have_local_offer else stable),
                            localDescription := Some d\<rparr>)),
      addIceCandidate_outcome =
        (\<lambda>c candidate. if remoteDescription c = None
                        then Some (DOMException ''InvalidStateError'') else None),
      newMediaStream_id = ''stream-0'',
      throws = (\<lambda>c. None)\<rparr>"

definition new_connection :: RTCPeerConnection where
  "new_connection =
     \<lparr>signalingState = stable, localDescription = None, remoteDescription = None,
      senderTracks = [], receiverTracks = [], addedIceCandidates = []\<rparr>"

definition camera :: MediaStream where
  "camera =
     \<lparr>stream_id = ''cam'',
      tracks = [\<lparr>track_id = ''mic-1'', kind = audio\<rparr>, \<lparr>track_id = ''video-1'', kind = video\<rparr>]\<rparr>"

definition new_peer :: WebRtcPeer where
  "new_peer =
     \<lparr>peer_id = ''peer-1'', simulcast = False, videoStream = camera,
      localVideo = None,
      remoteVideo = Some \<lparr>paused = False, srcObject = None, muted = False, load_calls = 0\<rparr>,
      peerConnection = new_connection, dataChannel = None,
      candidatesQueueOut = [], candidategatheringdone = False,
      icecandidate_listeners = [], candidategatheringdone_listeners = [],
      newListener_handler = True, dispose_handler = True,
      console = [], invocations = [], calls = []\<rparr>"

text \<open>A browser that refuses the candidate \<open>bad\<close> and accepts every other.\<close>

definition picky_browser :: browser where
  "picky_browser =
     plain_browser\<lparr>addIceCandidate_outcome :=
       (\<lambda>c candidate. if candidate = ''bad'' then Some (DOMException ''OperationError'') else None)\<rparr>"

text \<open>A gate with one candidate waiting: submitted after a local offer was set.\<close>

definition waiting_gate :: gate where
  "waiting_gate =
     run plain_browser [SignalingStateChange have_local_offer None, Submit ''candidate:1'']
       (bufferizeCandidates new_connection)"



section \<open>Properties of the text transforms\<close>

subsection \<open>\<open>indexOf\<close> finds the first occurrence\<close>

lemma indexOf_from_cases:
  "(indexOf_from i pat s = - 1 \<and> (\<forall>k. \<not> occurs_at pat s k)) \<or>
   (\<exists>k. indexOf_from i pat s = int (i + k) \<and> occurs_at pat s k \<and> (\<forall>j<k. \<not> occurs_at pat s j))"
proof (induction s arbitrary: i)
  case Nil
  then show ?case by (auto simp: occurs_at_def)
next
  case (Cons c cs)
  show ?case
  proof (cases "prefix pat (c # cs)")
    case True
    then have "indexOf_from i pat (c # cs) = int (i + 0) \<and> occurs_at pat (c # cs) 0"
      by (simp add: occurs_at_def)
    then show ?thesis by blast
  next
    case False
    have shift: "occurs_at pat (c # cs) (Suc k) = occurs_at pat cs k" for k
      by (simp add: occurs_at_def)
    have zero: "\<not> occurs_at pat (c # cs) 0"
      using False by (simp add: occurs_at_def)
    from Cons.IH [of "Suc i"] show ?thesis
    proof
      assume a: "indexOf_from (Suc i) pat cs = - 1 \<and> (\<forall>k. \<not> occurs_at pat cs k)"
      have "\<not> occurs_at pat (c # cs) k" for k
        using a zero shift by (cases k) auto
      with a False show ?thesis by simp
    next
      assume "\<exists>k. indexOf_from (Suc i) pat cs = int (Suc i + k) \<and> occurs_at pat cs k \<and>
                 (\<forall>j<k. \<not> occurs_at pat cs j)"
      then obtain k where k: "indexOf_from (Suc i) pat cs = int (Suc i + k)"
        "occurs_at pat cs k" "\<forall>j<k. \<not> occurs_at pat cs j" by blast
      have "\<not> occurs_at pat (c # cs) j" if "j < Suc k" for j
        using that k(3) zero shift by (cases j) auto
      with k False shift have "indexOf_from i pat (c # cs) = int (i + Suc k) \<and>
          occurs_at pat (c # cs) (Suc k) \<and> (\<forall>j<Suc k. \<not> occurs_at pat (c # cs) j)"
        by simp
      then show ?thesis by blast
    qed
  qed
qed

lemma indexOf_cases:
  "(indexOf s pat = - 1 \<and> (\<forall>k. \<not> occurs_at pat s k)) \<or>
   (\<exists>k. indexOf s pat = int k \<and> occurs_at pat s k \<and> (\<forall>j<k. \<not> occurs_at pat s j))"
  using indexOf_from_cases [of 0 pat s] by (simp add: indexOf_def)

lemma indexOf_absent: "(\<forall>k. \<not> occurs_at pat s k) \<Longrightarrow> indexOf s pat = - 1"
  using indexOf_cases [of s pat] by auto

lemma indexOf_first:
  "occurs_at pat s k \<Longrightarrow> (\<forall>j<k. \<not> occurs_at pat s j) \<Longrightarrow> indexOf s pat = int k"
  using indexOf_cases [of s pat]
  by (metis linorder_neqE_nat of_nat_eq_iff)

lemma slice_0: "0 \<le> n \<Longrightarrow> slice s 0 n = take (nat n) s"
  by (auto simp: slice_def clamp_index_def Let_def min_def)

lemma occurs_at_take:
  assumes "occurs_at pat (take k s) j" "pat \<noteq> []"
  shows "occurs_at pat s j \<and> j < k"
proof -
  from assms have j: "j \<le> length (take k s)" and p: "prefix pat (drop j (take k s))"
    by (simp_all add: occurs_at_def)
  have "drop j (take k s) = take (k - j) (drop j s)" by (simp add: drop_take)
  then have "prefix (drop j (take k s)) (drop j s)" by (simp add: take_is_prefix)
  with p have "prefix pat (drop j s)" by (rule prefix_order.trans)
  moreover have "j < k"
  proof (rule ccontr)
    assume "\<not> j < k"
    then have "drop j (take k s) = []" by simp
    with p assms(2) show False by simp
  qed
  ultimately show ?thesis using j by (simp add: occurs_at_def)
qed


lemma FID_marker_nonempty: "FID_marker \<noteq> []"
  by (simp add: FID_marker_def)

lemma removeFIDFromOffer_cases:
  "(removeFIDFromOffer s = s \<and> indexOf s FID_marker \<le> 0) \<or>
   (\<exists>k>0. indexOf s FID_marker = int k \<and> removeFIDFromOffer s = take k s \<and>
      occurs_at FID_marker s k \<and> (\<forall>j<k. \<not> occurs_at FID_marker s j))"
proof (cases "indexOf s FID_marker > 0")
  case False
  then show ?thesis by (simp add: removeFIDFromOffer_def)
next
  case True
  with indexOf_cases [of s FID_marker] obtain k where
    k: "indexOf s FID_marker = int k" "occurs_at FID_marker s k"
       "\<forall>j<k. \<not> occurs_at FID_marker s j"
    by auto
  with True have "0 < k" by simp
  moreover have "removeFIDFromOffer s = take k s"
    using True k(1) by (simp add: removeFIDFromOffer_def slice_0)
  ultimately show ?thesis using k by blast
qed

lemma removeFIDFromOffer_no_marker:
  "indexOf (removeFIDFromOffer s) FID_marker \<le> 0"
  using removeFIDFromOffer_cases [of s]
proof
  assume "removeFIDFromOffer s = s \<and> indexOf s FID_marker \<le> 0"
  then show ?thesis by simp
next
  assume "\<exists>k>0. indexOf s FID_marker = int k \<and> removeFIDFromOffer s = take k s \<and>
      occurs_at FID_marker s k \<and> (\<forall>j<k. \<not> occurs_at FID_marker s j)"
  then obtain k where k: "removeFIDFromOffer s = take k s"
    "\<forall>j<k. \<not> occurs_at FID_marker s j" by blast
  have "\<not> occurs_at FID_marker (take k s) j" for j
    using occurs_at_take [of FID_marker k s j] k(2) FID_marker_nonempty by blast
  then have "indexOf (take k s) FID_marker = - 1" by (simp add: indexOf_absent)
  with k(1) show ?thesis by simp
qed

text \<open>
  \<^bold>\<open>C10\<close>. For every string \<open>s\<close>, \<open>removeFIDFromOffer s\<close> is a prefix of \<open>s\<close>, and
  applying \<open>removeFIDFromOffer\<close> twice gives what applying it once gives, wherever the
  marker occurs in \<open>s\<close> (also at index 0) and when it does not occur.
\<close>

theorem removeFIDFromOffer_prefix_idempotent:
  "prefix (removeFIDFromOffer s) s \<and>
   removeFIDFromOffer (removeFIDFromOffer s) = removeFIDFromOffer s"
proof
  show "prefix (removeFIDFromOffer s) s"
    using removeFIDFromOffer_cases [of s] by (auto simp: take_is_prefix)
  show "removeFIDFromOffer (removeFIDFromOffer s) = removeFIDFromOffer s"
    using removeFIDFromOffer_no_marker [of s]
    by (simp add: removeFIDFromOffer_def [of "removeFIDFromOffer s"])
qed

text \<open>The two cases at concrete inputs: the marker at index 0, and further in.\<close>

theorem removeFIDFromOffer_prefix_idempotent_witness:
  "prefix (removeFIDFromOffer ''a=ssrc-group:FID 1 2'') ''a=ssrc-group:FID 1 2'' \<and>
   removeFIDFromOffer (removeFIDFromOffer ''a=ssrc-group:FID 1 2'') =
     removeFIDFromOffer ''a=ssrc-group:FID 1 2'' \<and>
   removeFIDFromOffer (removeFIDFromOffer ''v=0 a=ssrc-group:FID 1 2'') =
     removeFIDFromOffer ''v=0 a=ssrc-group:FID 1 2''"
  using removeFIDFromOffer_prefix_idempotent [of "''a=ssrc-group:FID 1 2''"]
    removeFIDFromOffer_prefix_idempotent [of "''v=0 a=ssrc-group:FID 1 2''"]
  by simp

lemma removeFIDFromOffer_truncates:
  "occurs_at FID_marker s k \<Longrightarrow> (\<forall>j<k. \<not> occurs_at FID_marker s j) \<Longrightarrow> 0 < k \<Longrightarrow>
     removeFIDFromOffer s = take k s"
  using indexOf_first [of FID_marker s k]
  by (simp add: removeFIDFromOffer_def slice_0)

lemma removeFIDFromOffer_absent:
  "(\<forall>k. \<not> occurs_at FID_marker s k) \<Longrightarrow> removeFIDFromOffer s = s"
  using indexOf_absent [of FID_marker s] by (simp add: removeFIDFromOffer_def)

text \<open>
  \<^bold>\<open>C5\<close>. When the marker occurs in \<open>s\<close>, \<open>removeFIDFromOffer s\<close> should be the prefix
  of \<open>s\<close> that ends where the first occurrence starts; when it does not occur, \<open>s\<close>.
  The two lemmas above give this for a first occurrence at an offset greater than 0 and
  for no occurrence. The test \<open>n > 0\<close> leaves out a first occurrence at offset 0: on a
  text that starts with the marker, \<open>indexOf\<close> is 0 and the text comes back whole, not
  cut to the empty prefix.
\<close>

theorem removeFIDFromOffer_marker_at_start:
  "occurs_at FID_marker ''a=ssrc-group:FID 1 2'' 0 \<and>
   indexOf ''a=ssrc-group:FID 1 2'' FID_marker = 0 \<and>
   removeFIDFromOffer ''a=ssrc-group:FID 1 2'' = ''a=ssrc-group:FID 1 2'' \<and>
   removeFIDFromOffer ''a=ssrc-group:FID 1 2'' \<noteq> take 0 ''a=ssrc-group:FID 1 2''"
  by (simp add: removeFIDFromOffer_def indexOf_def FID_marker_def occurs_at_def)

subsection \<open>The simulcast block\<close>

lemma split_lines_no_LF: "LF \<notin> set a \<Longrightarrow> split_lines a = [a]"
  by (induction a) auto

lemma split_lines_append_LF:
  "LF \<notin> set a \<Longrightarrow> split_lines (a @ LF # b) = a # split_lines b"
  by (induction a) auto

lemma split_join:
  "ls \<noteq> [] \<Longrightarrow> \<forall>l\<in>set ls. LF \<notin> set l \<Longrightarrow> split_lines (join_lines ls) = ls"
  by (induction ls rule: join_lines.induct) (auto simp: split_lines_no_LF split_lines_append_LF)

lemma template_join: "simulcast_template sid tid = join_lines (simulcast_block_lines sid tid)"
  by (simp add: simulcast_template_def simulcast_block_lines_def)

lemma block_lines_no_LF:
  "LF \<notin> set sid \<Longrightarrow> LF \<notin> set tid \<Longrightarrow>
     \<forall>l\<in>set (simulcast_block_lines sid tid). LF \<notin> set l"
  by (simp add: simulcast_block_lines_def LF_def)

lemma template_split:
  "LF \<notin> set sid \<Longrightarrow> LF \<notin> set tid \<Longrightarrow>
     split_lines (simulcast_template sid tid) = simulcast_block_lines sid tid"
  using split_join [of "simulcast_block_lines sid tid"] block_lines_no_LF [of sid tid]
  by (simp add: template_join) (simp add: simulcast_block_lines_def)

lemma block_group:
  "group_lines (simulcast_block_lines sid tid) = [''a=ssrc-group:SIM 1 2 3'']"
  by (simp add: group_lines_def simulcast_block_lines_def)

lemma block_ssrc:
  "ssrc_lines (simulcast_block_lines sid tid) = drop 2 (simulcast_block_lines sid tid)"
  by (simp add: ssrc_lines_def simulcast_block_lines_def)

lemma block_ids:
  "map ssrc_id (drop 2 (simulcast_block_lines sid tid)) =
     [''1'', ''1'', ''1'', ''1'', ''2'', ''2'', ''2'', ''2'', ''3'', ''3'', ''3'', ''3'']"
  by (simp add: ssrc_id_def simulcast_block_lines_def)

lemma getSimulcastInfo_no_video:
  "getVideoTracks vs = [] \<Longrightarrow>
     getSimulcastInfo vs = ('''', [Warn ''No video tracks available in the video stream''])"
  by (simp add: getSimulcastInfo_def)

lemma getSimulcastInfo_video:
  "getVideoTracks vs = t # ts \<Longrightarrow>
     getSimulcastInfo vs = (simulcast_template (stream_id vs) (track_id t), [])"
  by (simp add: getSimulcastInfo_def)

text \<open>
  \<^bold>\<open>C7\<close>. For every media stream: with no video track, the description comes back
  unchanged and the only effect is the warning; with a video track \<open>t\<close> first, the
  appended text is the fourteen lines below joined by line feeds. They hold one grouping
  directive, \<open>a=ssrc-group:SIM 1 2 3\<close>, and twelve \<open>a=ssrc:\<close> lines, four for each of
  the ids 1, 2 and 3 and for no other id; in each layer the \<open>msid\<close> line names the
  stream's id and the id of \<open>t\<close>, the \<open>mslabel\<close> line the stream's id and the \<open>label\<close>
  line the id of \<open>t\<close>. When the two ids hold no line feed, splitting the appended text
  into lines gives these fourteen lines back.
\<close>

theorem appendSimulcastBlock_three_layers:
  "(getVideoTracks vs = [] \<longrightarrow>
      appendSimulcastBlock d vs = d \<and>
      snd (getSimulcastInfo vs) = [Warn ''No video tracks available in the video stream'']) \<and>
   (\<forall>t ts. getVideoTracks vs = t # ts \<longrightarrow>
      (let sid = stream_id vs; tid = track_id t;
           layer1 = [''a=ssrc:1 cname:localVideo'',
                     ''a=ssrc:1 msid:'' @ sid @ '' '' @ tid @ '','',
                     ''a=ssrc:1 mslabel:'' @ sid @ '','',
                     ''a=ssrc:1 label:'' @ tid];
           layer2 = [''a=ssrc:2 cname:localVideo'' @ [CHR 0x27],
                     ''a=ssrc:2 msid:'' @ sid @ '' '' @ tid @ '','',
                     ''a=ssrc:2 mslabel:'' @ sid,
                     ''a=ssrc:2 label:'' @ tid];
           layer3 = [''a=ssrc:3 cname:localVideo'',
                     ''a=ssrc:3 msid:'' @ sid @ '' '' @ tid @ '','',
                     ''a=ssrc:3 mslabel:'' @ sid,
                     ''a=ssrc:3 label:'' @ tid];
           block = [''a=x-google-flag:conference'', ''a=ssrc-group:SIM 1 2 3'']
                     @ layer1 @ layer2 @ layer3
       in appendSimulcastBlock d vs = d @ join_lines block \<and>
          snd (getSimulcastInfo vs) = [] \<and>
          (LF \<notin> set sid \<and> LF \<notin> set tid \<longrightarrow>
             split_lines (fst (getSimulcastInfo vs)) = block) \<and>
          group_lines block = [''a=ssrc-group:SIM 1 2 3''] \<and>
          ssrc_lines block = layer1 @ layer2 @ layer3 \<and>
          map ssrc_id layer1 = [''1'', ''1'', ''1'', ''1''] \<and>
          map ssrc_id layer2 = [''2'', ''2'', ''2'', ''2''] \<and>
          map ssrc_id layer3 = [''3'', ''3'', ''3'', ''3'']))"
proof (intro conjI impI allI)
  assume "getVideoTracks vs = []"
  then show "appendSimulcastBlock d vs = d"
    by (simp add: appendSimulcastBlock_def getSimulcastInfo_no_video)
next
  assume "getVideoTracks vs = []"
  then show "snd (getSimulcastInfo vs) = [Warn ''No video tracks available in the video stream'']"
    by (simp add: getSimulcastInfo_no_video)
next
  fix t ts
  assume v: "getVideoTracks vs = t # ts"
  define sid where "sid = stream_id vs"
  define tid where "tid = track_id t"
  have info: "getSimulcastInfo vs = (join_lines (simulcast_block_lines sid tid), [])"
    using v by (simp add: getSimulcastInfo_video template_join sid_def tid_def)
  have a: "appendSimulcastBlock d vs = d @ join_lines (simulcast_block_lines sid tid)"
    by (simp add: appendSimulcastBlock_def info)
  have s: "LF \<notin> set sid \<and> LF \<notin> set tid \<longrightarrow>
      split_lines (fst (getSimulcastInfo vs)) = simulcast_block_lines sid tid"
    using template_split [of sid tid] by (simp add: info template_join [symmetric])
  have g: "group_lines (simulcast_block_lines sid tid) = [''a=ssrc-group:SIM 1 2 3'']"
    by (rule block_group)
  have l: "ssrc_lines (simulcast_block_lines sid tid) = drop 2 (simulcast_block_lines sid tid)"
    by (rule block_ssrc)
  have i: "map ssrc_id (drop 2 (simulcast_block_lines sid tid)) =
     [''1'', ''1'', ''1'', ''1'', ''2'', ''2'', ''2'', ''2'', ''3'', ''3'', ''3'', ''3'']"
    by (rule block_ids)
  have "snd (getSimulcastInfo vs) = []" by (simp add: info)
  with a s g l i
  show "let sid = stream_id vs; tid = track_id t;
           layer1 = [''a=ssrc:1 cname:localVideo'',
                     ''a=ssrc:1 msid:'' @ sid @ '' '' @ tid @ '','',
                     ''a=ssrc:1 mslabel:'' @ sid @ '','',
                     ''a=ssrc:1 label:'' @ tid];
           layer2 = [''a=ssrc:2 cname:localVideo'' @ [CHR 0x27],
                     ''a=ssrc:2 msid:'' @ sid @ '' '' @ tid @ '','',
                     ''a=ssrc:2 mslabel:'' @ sid,
                     ''a=ssrc:2 label:'' @ tid];
           layer3 = [''a=ssrc:3 cname:localVideo'',
                     ''a=ssrc:3 msid:'' @ sid @ '' '' @ tid @ '','',
                     ''a=ssrc:3 mslabel:'' @ sid,
                     ''a=ssrc:3 label:'' @ tid];
           block = [''a=x-google-flag:conference'', ''a=ssrc-group:SIM 1 2 3'']
                     @ layer1 @ layer2 @ layer3
       in appendSimulcastBlock d vs = d @ join_lines block \<and>
          snd (getSimulcastInfo vs) = [] \<and>
          (LF \<notin> set sid \<and> LF \<notin> set tid \<longrightarrow>
             split_lines (fst (getSimulcastInfo vs)) = block) \<and>
          group_lines block = [''a=ssrc-group:SIM 1 2 3''] \<and>
          ssrc_lines block = layer1 @ layer2 @ layer3 \<and>
          map ssrc_id layer1 = [''1'', ''1'', ''1'', ''1''] \<and>
          map ssrc_id layer2 = [''2'', ''2'', ''2'', ''2''] \<and>
          map ssrc_id layer3 = [''3'', ''3'', ''3'', ''3'']"
    unfolding Let_def sid_def [symmetric] tid_def [symmetric]
    by (simp add: simulcast_block_lines_def)
qed

text \<open>
  At the camera stream (an audio track, then a video track) and at a stream with only
  an audio track.
\<close>

theorem appendSimulcastBlock_three_layers_witness:
  "getVideoTracks camera = [\<lparr>track_id = ''video-1'', kind = video\<rparr>] \<and>
   split_lines (fst (getSimulcastInfo camera)) =
     [''a=x-google-flag:conference'', ''a=ssrc-group:SIM 1 2 3'',
      ''a=ssrc:1 cname:localVideo'', ''a=ssrc:1 msid:cam video-1,'',
      ''a=ssrc:1 mslabel:cam,'', ''a=ssrc:1 label:video-1'',
      ''a=ssrc:2 cname:localVideo'' @ [CHR 0x27], ''a=ssrc:2 msid:cam video-1,'',
      ''a=ssrc:2 mslabel:cam'', ''a=ssrc:2 label:video-1'',
      ''a=ssrc:3 cname:localVideo'', ''a=ssrc:3 msid:cam video-1,'',
      ''a=ssrc:3 mslabel:cam'', ''a=ssrc:3 label:video-1''] \<and>
   getVideoTracks \<lparr>stream_id = ''mic'', tracks = [\<lparr>track_id = ''mic-1'', kind = audio\<rparr>]\<rparr> = [] \<and>
   appendSimulcastBlock ''v=0''
     \<lparr>stream_id = ''mic'', tracks = [\<lparr>track_id = ''mic-1'', kind = audio\<rparr>]\<rparr> = ''v=0''"
  using appendSimulcastBlock_three_layers [of camera "''v=0''"]
    appendSimulcastBlock_three_layers
      [of "\<lparr>stream_id = ''mic'', tracks = [\<lparr>track_id = ''mic-1'', kind = audio\<rparr>]\<rparr>" "''v=0''"]
  by (simp add: camera_def getVideoTracks_def LF_def Let_def)

subsection \<open>The Mangler\<close>

text \<open>
  \<^bold>\<open>C8\<close>. For every session description \<open>d\<close>: with the simulcast flag unset the
  Mangler returns \<open>d\<close>; with the flag set the result has the type tag of \<open>d\<close>, and is
  \<open>d\<close> with its payload replaced (by the stripped payload followed by the simulcast
  block).
\<close>

theorem mangleSdpToAddSimulcast_keeps_type:
  "(\<not> simulcast p \<longrightarrow> fst (mangleSdpToAddSimulcast p d) = d) \<and>
   (simulcast p \<longrightarrow>
      type (fst (mangleSdpToAddSimulcast p d)) = type d \<and>
      fst (mangleSdpToAddSimulcast p d) =
        d\<lparr>sdp := appendSimulcastBlock (removeFIDFromOffer (sdp d)) (videoStream p)\<rparr>)"
  by (simp add: mangleSdpToAddSimulcast_def appendSimulcastBlock_def split: prod.splits)

theorem mangleSdpToAddSimulcast_keeps_type_witness:
  "\<not> simulcast new_peer \<and>
   fst (mangleSdpToAddSimulcast new_peer \<lparr>type = Answer, sdp = ''v=0 a=ssrc-group:FID 1 2''\<rparr>) =
     \<lparr>type = Answer, sdp = ''v=0 a=ssrc-group:FID 1 2''\<rparr> \<and>
   simulcast (new_peer\<lparr>simulcast := True\<rparr>) \<and>
   type (fst (mangleSdpToAddSimulcast (new_peer\<lparr>simulcast := True\<rparr>)
               \<lparr>type = Answer, sdp = ''v=0 a=ssrc-group:FID 1 2''\<rparr>)) = Answer \<and>
   sdp (fst (mangleSdpToAddSimulcast (new_peer\<lparr>simulcast := True\<rparr>)
               \<lparr>type = Answer, sdp = ''v=0 a=ssrc-group:FID 1 2''\<rparr>)) =
     ''v=0 '' @ simulcast_template ''cam'' ''video-1''"
  using mangleSdpToAddSimulcast_keeps_type
      [of new_peer "\<lparr>type = Answer, sdp = ''v=0 a=ssrc-group:FID 1 2''\<rparr>"]
    mangleSdpToAddSimulcast_keeps_type
      [of "new_peer\<lparr>simulcast := True\<rparr>" "\<lparr>type = Answer, sdp = ''v=0 a=ssrc-group:FID 1 2''\<rparr>"]
  by (simp add: new_peer_def camera_def appendSimulcastBlock_def getSimulcastInfo_def
      getVideoTracks_def removeFIDFromOffer_def indexOf_def FID_marker_def slice_def
      clamp_index_def)

section \<open>Properties of the Negotiation Peer\<close>

subsection \<open>Processing an offer\<close>

text \<open>
  On a closed connection \<open>processOffer\<close> throws before it changes anything but the
  console. Otherwise the connection it leaves is the one \<open>setRemoteDescription\<close>
  produced: the created answer is mangled and then dropped, \<open>setLocalDescription\<close> is
  never called, and what is returned is the payload of whatever local description the
  connection already had.
\<close>

lemma peerConnection_logger [simp]: "peerConnection (logger e p) = peerConnection p"
  by (simp add: logger_def)

lemma peerConnection_setRemoteVideo [simp]:
  "peerConnection (setRemoteVideo b p) = peerConnection p"
  by (simp add: setRemoteVideo_def Let_def split: option.splits)

lemma processOffer_closed:
  "signalingState (peerConnection p) = closed \<Longrightarrow>
     processOffer b s p =
       (Inl (Error ''PeerConnection is closed''),
        p\<lparr>console := console p @ [Debug ''SDP offer received, setting remote description'']\<rparr>)"
  by (simp add: processOffer_def logger_def)

lemma processOffer_connection:
  "signalingState (peerConnection p) \<noteq> closed \<Longrightarrow>
   setRemoteDescription b \<lparr>type = Offer, sdp = s\<rparr> (peerConnection p) = Inr c \<Longrightarrow>
     peerConnection (snd (processOffer b s p)) = c"
  by (simp add: processOffer_def Let_def split: sum.splits option.splits prod.splits)

lemma processOffer_result:
  "signalingState (peerConnection p) \<noteq> closed \<Longrightarrow>
   setRemoteDescription b \<lparr>type = Offer, sdp = s\<rparr> (peerConnection p) = Inr c \<Longrightarrow>
   createAnswer b c = Inr a \<Longrightarrow>
     fst (processOffer b s p) =
       (case localDescription c of
          None \<Rightarrow> Inl (Error ''no local description'')
        | Some ld \<Rightarrow> Inr (sdp ld))"
  by (simp add: processOffer_def Let_def split: sum.splits option.splits prod.splits)

lemma processOffer_ignores_setLocalDescription:
  "processOffer (b\<lparr>setLocalDescription := f\<rparr>) s p = processOffer b s p"
  by (simp add: processOffer_def setRemoteVideo_def getRemoteStreams_def collect_tracks_def Let_def
      cong: sum.case_cong option.case_cong prod.case_cong)

text \<open>
  \<^bold>\<open>C1\<close>. After the remote description is set and the answer created (and mangled),
  \<open>processOffer\<close> should set the answer as the local description and return that
  description's payload. \<open>generateOffer\<close> does so for its offer
  (\<open>await this.peerConnection.setLocalDescription(offer)\<close>); \<open>processOffer\<close> has no
  such call. On a new peer, whose connection has no local description, the offer is
  applied, the connection is left in \<open>have-remote-offer\<close> with no local description,
  and the call throws \<open>Error('no local description')\<close>.
\<close>

theorem processOffer_no_local_description:
  "fst (processOffer plain_browser ''v=0 offer'' new_peer) = Inl (Error ''no local description'') \<and>
   localDescription (peerConnection (snd (processOffer plain_browser ''v=0 offer'' new_peer))) = None \<and>
   remoteDescription (peerConnection (snd (processOffer plain_browser ''v=0 offer'' new_peer))) =
     Some \<lparr>type = Offer, sdp = ''v=0 offer''\<rparr> \<and>
   signalingState (peerConnection (snd (processOffer plain_browser ''v=0 offer'' new_peer))) =
     have_remote_offer"
  by (simp add: processOffer_def plain_browser_def new_peer_def new_connection_def Let_def
      mangleSdpToAddSimulcast_def logger_def setRemoteVideo_def)

subsection \<open>Local candidates that arrive before any subscriber\<close>

lemma drain_result:
  "drain event l (queue, made) =
     ([], made @ map (\<lambda>c. (l, event, c))
                  (filter (\<lambda>c. (c = None) = (event = candidategatheringdone_event)) queue))"
  by (induction queue arbitrary: made) auto

lemma buffer_candidates:
  "listenerCount icecandidate_event p = 0 \<Longrightarrow>
   listenerCount candidategatheringdone_event p = 0 \<Longrightarrow>
   \<not> candidategatheringdone p \<Longrightarrow>
     fold (\<lambda>c. pc_icecandidate (Some c)) cs p =
       p\<lparr>candidatesQueueOut := candidatesQueueOut p @ map Some cs\<rparr>"
proof (induction cs arbitrary: p)
  case Nil
  then show ?case by simp
next
  case (Cons c cs)
  let ?p1 = "p\<lparr>candidatesQueueOut := candidatesQueueOut p @ [Some c]\<rparr>"
  have step: "pc_icecandidate (Some c) p = ?p1"
    using Cons.prems by (simp add: pc_icecandidate_def)
  have "fold (\<lambda>c. pc_icecandidate (Some c)) cs ?p1 =
      ?p1\<lparr>candidatesQueueOut := candidatesQueueOut ?p1 @ map Some cs\<rparr>"
    using Cons.prems by (intro Cons.IH) (simp_all add: listenerCount_def listeners_of_def)
  with step show ?case by simp
qed

lemma buffer_terminal:
  "listenerCount icecandidate_event p = 0 \<Longrightarrow>
   listenerCount candidategatheringdone_event p = 0 \<Longrightarrow>
   \<not> candidategatheringdone p \<Longrightarrow>
     pc_icecandidate None p =
       p\<lparr>candidatesQueueOut := candidatesQueueOut p @ [None], candidategatheringdone := True\<rparr>"
  by (simp add: pc_icecandidate_def)

lemma buffer_all:
  assumes "listenerCount icecandidate_event p = 0"
    "listenerCount candidategatheringdone_event p = 0" "\<not> candidategatheringdone p"
  shows "pc_icecandidate None (fold (\<lambda>c. pc_icecandidate (Some c)) cs p) =
       p\<lparr>candidatesQueueOut := candidatesQueueOut p @ map Some cs @ [None],
         candidategatheringdone := True\<rparr>"
proof -
  let ?p1 = "p\<lparr>candidatesQueueOut := candidatesQueueOut p @ map Some cs\<rparr>"
  have "pc_icecandidate None ?p1 =
      ?p1\<lparr>candidatesQueueOut := candidatesQueueOut ?p1 @ [None], candidategatheringdone := True\<rparr>"
    using assms by (intro buffer_terminal) (simp_all add: listenerCount_def listeners_of_def)
  then show ?thesis using assms by (simp add: buffer_candidates)
qed

lemma on_invocations:
  "newListener_handler p \<Longrightarrow> event = icecandidate_event \<or> event = candidategatheringdone_event \<Longrightarrow>
     invocations (on event l p) =
       invocations p @
         map (\<lambda>c. (l, event, c))
           (filter (\<lambda>c. (c = None) = (event = candidategatheringdone_event)) (candidatesQueueOut p)) \<and>
     candidatesQueueOut (on event l p) = [] \<and>
     newListener_handler (on event l p)"
  by (auto simp: on_def newListener_def drain_result)

lemma on_empty_buffer:
  "candidatesQueueOut p = [] \<Longrightarrow>
     invocations (on event l p) = invocations p \<and> candidatesQueueOut (on event l p) = []"
  by (cases event) (simp_all add: on_def newListener_def)

text \<open>
  \<^bold>\<open>C6\<close>. Let a peer have no subscriber of either candidate event, gathering not marked
  done, an empty buffer, and the constructor's \<open>newListener\<close> handler registered. When
  the candidates \<open>cs\<close> and then the terminal \<open>null\<close> arrive, they are appended to the
  buffer in order and no listener is called. When a first subscriber then registers, the
  buffer is drained: a listener of \<open>icecandidate\<close> is called with exactly the candidates
  \<open>cs\<close>, in arrival order; a listener of \<open>candidategatheringdone\<close> is called exactly
  once, with the terminal entry; an entry is handed to the registering listener only
  when it is of the listener's kind (the drain removes the others from the buffer
  without a call). The buffer is empty afterwards, and registering any later listener,
  of either kind, calls nothing.
\<close>

theorem late_subscriber_replay:
  assumes "listenerCount icecandidate_event p = 0"
    and "listenerCount candidategatheringdone_event p = 0"
    and "\<not> candidategatheringdone p"
    and "candidatesQueueOut p = []"
    and "newListener_handler p"
  shows
    "let p1 = pc_icecandidate None (fold (\<lambda>c. pc_icecandidate (Some c)) cs p)
     in candidatesQueueOut p1 = map Some cs @ [None] \<and>
        invocations p1 = invocations p \<and>
        invocations (on icecandidate_event l p1) =
          invocations p @ map (\<lambda>c. (l, icecandidate_event, Some c)) cs \<and>
        invocations (on candidategatheringdone_event l p1) =
          invocations p @ [(l, candidategatheringdone_event, None)] \<and>
        (\<forall>event. event = icecandidate_event \<or> event = candidategatheringdone_event \<longrightarrow>
           candidatesQueueOut (on event l p1) = [] \<and>
           (\<forall>event' l'. invocations (on event' l' (on event l p1)) = invocations (on event l p1)))"
proof -
  define p1 where "p1 = pc_icecandidate None (fold (\<lambda>c. pc_icecandidate (Some c)) cs p)"
  have p1: "p1 = p\<lparr>candidatesQueueOut := map Some cs @ [None], candidategatheringdone := True\<rparr>"
    using buffer_all [OF assms(1-3), of cs] assms(4) by (simp add: p1_def)
  have h: "newListener_handler p1" using assms(5) by (simp add: p1)
  have q: "candidatesQueueOut p1 = map Some cs @ [None]" by (simp add: p1)
  have i: "invocations p1 = invocations p" by (simp add: p1)
  have f1: "filter (\<lambda>c. (c = None) = (icecandidate_event = candidategatheringdone_event))
              (map Some cs @ [None]) = map Some cs"
    by (induction cs) auto
  have f2: "filter (\<lambda>c. (c = None) = (candidategatheringdone_event = candidategatheringdone_event))
              (map Some cs @ [None]) = [None]"
    by (induction cs) auto
  have a: "invocations (on icecandidate_event l p1) =
          invocations p @ map (\<lambda>c. (l, icecandidate_event, Some c)) cs"
    using on_invocations [OF h, of icecandidate_event l] by (simp add: q i f1 comp_def)
  have b: "invocations (on candidategatheringdone_event l p1) =
          invocations p @ [(l, candidategatheringdone_event, None)]"
    using on_invocations [OF h, of candidategatheringdone_event l] by (simp add: q i f2)
  have c: "candidatesQueueOut (on event l p1) = [] \<and>
           (\<forall>event' l'. invocations (on event' l' (on event l p1)) = invocations (on event l p1))"
    if "event = icecandidate_event \<or> event = candidategatheringdone_event" for event
    using on_invocations [OF h that, of l] on_empty_buffer [of "on event l p1"] by blast
  from q i a b c show ?thesis
    unfolding Let_def p1_def [symmetric] by blast
qed

text \<open>Three candidates and the terminal entry on a new peer; the listener is number 7.\<close>

theorem late_subscriber_replay_witness:
  "listenerCount icecandidate_event new_peer = 0 \<and>
   listenerCount candidategatheringdone_event new_peer = 0 \<and>
   \<not> candidategatheringdone new_peer \<and> candidatesQueueOut new_peer = [] \<and>
   newListener_handler new_peer \<and>
   candidatesQueueOut
     (pc_icecandidate None (fold (\<lambda>c. pc_icecandidate (Some c)) [''c1'', ''c2'', ''c3''] new_peer)) =
     [Some ''c1'', Some ''c2'', Some ''c3'', None] \<and>
   invocations
     (on icecandidate_event 7
        (pc_icecandidate None
           (fold (\<lambda>c. pc_icecandidate (Some c)) [''c1'', ''c2'', ''c3''] new_peer))) =
     [(7, icecandidate_event, Some ''c1''), (7, icecandidate_event, Some ''c2''),
      (7, icecandidate_event, Some ''c3'')] \<and>
   invocations
     (on candidategatheringdone_event 7
        (pc_icecandidate None
           (fold (\<lambda>c. pc_icecandidate (Some c)) [''c1'', ''c2'', ''c3''] new_peer))) =
     [(7, candidategatheringdone_event, None)]"
proof -
  have h: "listenerCount icecandidate_event new_peer = 0"
    "listenerCount candidategatheringdone_event new_peer = 0"
    "\<not> candidategatheringdone new_peer" "candidatesQueueOut new_peer = []"
    "newListener_handler new_peer"
    by (simp_all add: new_peer_def listenerCount_def listeners_of_def)
  have i: "invocations new_peer = []" by (simp add: new_peer_def)
  from late_subscriber_replay [OF h, of "[''c1'', ''c2'', ''c3'']" 7] h i
  show ?thesis by (simp add: Let_def)
qed

subsection \<open>Disposal\<close>












section \<open>Properties of the Signaling Gate\<close>

subsection \<open>The flush\<close>

lemma flush_queue [simp]: "candidatesQueue (flush b q g) = candidatesQueue g"
  by (induction q arbitrary: g) (auto simp: pc_addIceCandidate_def)

lemma flush_promises [simp]: "promises (flush b q g) = promises g"
  by (induction q arbitrary: g) (auto simp: pc_addIceCandidate_def)

lemma flush_signalingState [simp]:
  "signalingState (pc (flush b q g)) = signalingState (pc g)"
  by (induction q arbitrary: g) (auto simp: pc_addIceCandidate_def)

lemma flush_remoteDescription [simp]:
  "remoteDescription (pc (flush b q g)) = remoteDescription (pc g)"
  by (induction q arbitrary: g) (auto simp: pc_addIceCandidate_def)

lemma flush_added:
  "addedIceCandidates (pc (flush b q g)) = addedIceCandidates (pc g) @ map fst q"
  by (induction q arbitrary: g) (auto simp: pc_addIceCandidate_def)

lemma flush_settled_ids:
  "map fst (settlements (flush b q g)) = map fst (settlements g) @ map snd q"
  by (induction q arbitrary: g) (auto simp: pc_addIceCandidate_def)

lemma flush_length_settlements:
  "length (settlements (flush b q g)) = length (settlements g) + length q"
  using flush_settled_ids [of b q g, THEN arg_cong, of length] by simp

lemma flush_settlements_prefix:
  "\<exists>new. settlements (flush b q g) = settlements g @ new"
proof (induction q arbitrary: g)
  case Nil
  then show ?case by simp
next
  case (Cons x q)
  obtain c k where x: "x = (c, k)" by (cases x)
  obtain new where "settlements (flush b q (pc_addIceCandidate b c k g)) =
      settlements (pc_addIceCandidate b c k g) @ new"
    using Cons.IH by blast
  then have "settlements (flush b (x # q) g) =
      settlements g @ (k, settle (addIceCandidate_outcome b (pc g) c)) # new"
    by (simp add: x pc_addIceCandidate_def)
  then show ?case by blast
qed

lemma flush_settlement_nth:
  "i < length q \<Longrightarrow>
     settlements (flush b q g) ! (length (settlements g) + i) =
       (snd (q ! i),
        settle (addIceCandidate_outcome b
                 ((pc g)\<lparr>addedIceCandidates := addedIceCandidates (pc g) @ map fst (take i q)\<rparr>)
                 (fst (q ! i))))"
proof (induction q arbitrary: g i)
  case Nil
  then show ?case by simp
next
  case (Cons x q)
  obtain c k where x: "x = (c, k)" by (cases x)
  let ?g1 = "pc_addIceCandidate b c k g"
  have len: "length (settlements ?g1) = Suc (length (settlements g))"
    by (simp add: pc_addIceCandidate_def)
  show ?case
  proof (cases i)
    case 0
    obtain new where new: "settlements (flush b q ?g1) = settlements ?g1 @ new"
      using flush_settlements_prefix by blast
    have "settlements ?g1 ! length (settlements g) =
        (k, settle (addIceCandidate_outcome b (pc g) c))"
      by (simp add: pc_addIceCandidate_def)
    with 0 x new len show ?thesis
      by (simp add: nth_append)
  next
    case (Suc j)
    with Cons.prems have j: "j < length q" by simp
    have "settlements (flush b q ?g1) ! (length (settlements ?g1) + j) =
       (snd (q ! j),
        settle (addIceCandidate_outcome b
                 ((pc ?g1)\<lparr>addedIceCandidates := addedIceCandidates (pc ?g1) @ map fst (take j q)\<rparr>)
                 (fst (q ! j))))"
      by (rule Cons.IH [OF j])
    with Suc x len show ?thesis
      by (simp add: pc_addIceCandidate_def)
  qed
qed

subsection \<open>Submitting, and runs in transitional states\<close>

lemma submit_closed:
  "signalingState (pc g) = closed \<Longrightarrow>
     submit b c g =
       (promises g,
        g\<lparr>promises := Suc (promises g),
          settlements := settlements g @
            [(promises g, Rejected (Error ''PeerConnection object is closed''))]\<rparr>)"
  by (simp add: submit_def reject_def Let_def)

lemma submit_no_remote_description:
  "signalingState (pc g) = stable \<Longrightarrow> remoteDescription (pc g) = None \<Longrightarrow>
     submit b c g =
       (promises g,
        g\<lparr>promises := Suc (promises g),
          settlements := settlements g @
            [(promises g, Rejected (Error ''No Remote Description''))]\<rparr>)"
  by (simp add: submit_def reject_def Let_def)

lemma submit_stable:
  "signalingState (pc g) = stable \<Longrightarrow> remoteDescription (pc g) \<noteq> None \<Longrightarrow>
     submit b c g =
       (promises g,
        g\<lparr>promises := Suc (promises g),
          pc := (pc g)\<lparr>addedIceCandidates := addedIceCandidates (pc g) @ [c]\<rparr>,
          settlements := settlements g @
            [(promises g, settle (addIceCandidate_outcome b (pc g) c))]\<rparr>)"
  by (simp add: submit_def pc_addIceCandidate_def Let_def)

lemma submit_transitional:
  "transitional (signalingState (pc g)) \<Longrightarrow>
     submit b c g =
       (promises g,
        g\<lparr>promises := Suc (promises g),
          candidatesQueue := candidatesQueue g @ [(c, promises g)]\<rparr>)"
  by (cases "signalingState (pc g)") (simp_all add: submit_def transitional_def Let_def)

lemma state_change_not_stable:
  "s \<noteq> stable \<Longrightarrow>
     gate_step b (SignalingStateChange s rd) g =
       g\<lparr>pc := (pc g)\<lparr>signalingState := s, remoteDescription := rd\<rparr>\<rparr>"
  by (simp add: onsignalingstatechange_def)

lemma state_change_stable:
  "gate_step b (SignalingStateChange stable rd) g =
     (flush b (candidatesQueue g)
        (g\<lparr>pc := (pc g)\<lparr>signalingState := stable, remoteDescription := rd\<rparr>\<rparr>))
     \<lparr>candidatesQueue := []\<rparr>"
  by (simp add: onsignalingstatechange_def)

lemma run_Nil [simp]: "run b [] g = g"
  by (simp add: run_def)

lemma run_Cons [simp]: "run b (e # es) g = run b es (gate_step b e g)"
  by (simp add: run_def)

lemma run_append: "run b (es @ es') g = run b es' (run b es g)"
  by (simp add: run_def)

lemma zip_upt_Cons:
  "(c, p) # zip cs [Suc p..<Suc p + length cs] = zip (c # cs) [p..<p + length (c # cs)]"
  by (subst (2) upt_rec) simp

lemma run_transitional:
  "transitional (signalingState (pc g)) \<Longrightarrow> \<forall>e\<in>set es. keeps_transitional e \<Longrightarrow>
     candidatesQueue (run b es g) =
       candidatesQueue g @ zip (submitted es) [promises g..<promises g + length (submitted es)] \<and>
     settlements (run b es g) = settlements g \<and>
     addedIceCandidates (pc (run b es g)) = addedIceCandidates (pc g) \<and>
     promises (run b es g) = promises g + length (submitted es) \<and>
     transitional (signalingState (pc (run b es g)))"
proof (induction es arbitrary: g)
  case Nil
  then show ?case by simp
next
  case (Cons e es)
  show ?case
  proof (cases e)
    case (Submit c)
    let ?g1 = "g\<lparr>promises := Suc (promises g),
                 candidatesQueue := candidatesQueue g @ [(c, promises g)]\<rparr>"
    have step: "gate_step b e g = ?g1"
      using Cons.prems(1) Submit by (simp add: submit_transitional)
    have "transitional (signalingState (pc ?g1))" using Cons.prems(1) by simp
    moreover have "\<forall>e\<in>set es. keeps_transitional e" using Cons.prems(2) by simp
    ultimately have IH: "candidatesQueue (run b es ?g1) =
       candidatesQueue ?g1 @ zip (submitted es) [promises ?g1..<promises ?g1 + length (submitted es)] \<and>
     settlements (run b es ?g1) = settlements ?g1 \<and>
     addedIceCandidates (pc (run b es ?g1)) = addedIceCandidates (pc ?g1) \<and>
     promises (run b es ?g1) = promises ?g1 + length (submitted es) \<and>
     transitional (signalingState (pc (run b es ?g1)))"
      by (rule Cons.IH)
    have "zip (submitted (e # es)) [promises g..<promises g + length (submitted (e # es))] =
        (c, promises g) # zip (submitted es) [Suc (promises g)..<Suc (promises g) + length (submitted es)]"
      using zip_upt_Cons [of c "promises g" "submitted es"] Submit by simp
    with IH step Submit show ?thesis by simp
  next
    case (SignalingStateChange s rd)
    let ?g1 = "g\<lparr>pc := (pc g)\<lparr>signalingState := s, remoteDescription := rd\<rparr>\<rparr>"
    have s: "transitional s" using Cons.prems(2) SignalingStateChange by simp
    then have step: "gate_step b e g = ?g1"
      using SignalingStateChange by (simp add: onsignalingstatechange_def transitional_def)
    have "transitional (signalingState (pc ?g1))" using s by simp
    moreover have "\<forall>e\<in>set es. keeps_transitional e" using Cons.prems(2) by simp
    ultimately have "candidatesQueue (run b es ?g1) =
       candidatesQueue ?g1 @ zip (submitted es) [promises ?g1..<promises ?g1 + length (submitted es)] \<and>
     settlements (run b es ?g1) = settlements ?g1 \<and>
     addedIceCandidates (pc (run b es ?g1)) = addedIceCandidates (pc ?g1) \<and>
     promises (run b es ?g1) = promises ?g1 + length (submitted es) \<and>
     transitional (signalingState (pc (run b es ?g1)))"
      by (rule Cons.IH)
    with step SignalingStateChange show ?thesis by simp
  qed
qed

subsection \<open>Every promise is settled once or waits in the queue\<close>

lemma promise_ids_submit:
  "set (promise_ids (snd (submit b c g))) = insert (promises g) (set (promise_ids g)) \<and>
   (distinct (promise_ids (snd (submit b c g))) \<longleftrightarrow>
      distinct (promise_ids g) \<and> promises g \<notin> set (promise_ids g)) \<and>
   promises (snd (submit b c g)) = Suc (promises g)"
  by (cases "signalingState (pc g)")
    (auto simp: submit_def reject_def pc_addIceCandidate_def promise_ids_def Let_def)

lemma promise_ids_state_change:
  "promise_ids (gate_step b (SignalingStateChange s rd) g) = promise_ids g \<and>
   promises (gate_step b (SignalingStateChange s rd) g) = promises g"
  by (simp add: onsignalingstatechange_def promise_ids_def flush_settled_ids)

lemma gate_inv_step: "gate_inv g \<Longrightarrow> gate_inv (gate_step b e g)"
proof (cases e)
  case (Submit c)
  assume "gate_inv g"
  then show ?thesis
    using promise_ids_submit [of b c g] Submit
    by (auto simp: gate_inv_def lessThan_Suc)
next
  case (SignalingStateChange s rd)
  assume "gate_inv g"
  then show ?thesis
    using promise_ids_state_change [of b s rd g] SignalingStateChange
    by (simp add: gate_inv_def)
qed

lemma gate_inv_run: "gate_inv g \<Longrightarrow> gate_inv (run b es g)"
  by (induction es arbitrary: g) (simp_all add: gate_inv_step)

lemma gate_inv_initial: "gate_inv (bufferizeCandidates c)"
  by (simp add: gate_inv_def promise_ids_def bufferizeCandidates_def)

lemma settled_times_count:
  "settled_times g k = length (filter (\<lambda>x. x = k) (map fst (settlements g)))"
  by (simp add: settled_times_def filter_map comp_def)

lemma distinct_count:
  "distinct xs \<Longrightarrow> length (filter (\<lambda>x. x = k) xs) = (if k \<in> set xs then 1 else 0)"
  by (induction xs) auto

lemma gate_inv_settled_or_queued:
  assumes "gate_inv g" "k < promises g"
  shows "(settled_times g k = 1 \<and> k \<notin> snd ` set (candidatesQueue g)) \<or>
         (settled_times g k = 0 \<and> k \<in> snd ` set (candidatesQueue g))"
proof -
  from assms(1) have d: "distinct (map fst (settlements g))"
    and disj: "set (map fst (settlements g)) \<inter> set (map snd (candidatesQueue g)) = {}"
    and all: "set (map fst (settlements g)) \<union> set (map snd (candidatesQueue g)) = {..<promises g}"
    by (auto simp: gate_inv_def promise_ids_def)
  from all assms(2) have "k \<in> set (map fst (settlements g)) \<or> k \<in> set (map snd (candidatesQueue g))"
    by blast
  moreover have "settled_times g k = (if k \<in> set (map fst (settlements g)) then 1 else 0)"
    by (simp only: settled_times_count distinct_count [OF d])
  ultimately show ?thesis using disj by (auto simp del: set_map simp: set_map [symmetric])
qed

lemma run_closed:
  "signalingState (pc g) = closed \<Longrightarrow> \<forall>e\<in>set es. keeps_closed e \<Longrightarrow>
     candidatesQueue (run b es g) = candidatesQueue g \<and>
     addedIceCandidates (pc (run b es g)) = addedIceCandidates (pc g) \<and>
     settlements (run b es g) =
       settlements g @
         map (\<lambda>k. (k, Rejected (Error ''PeerConnection object is closed'')))
           [promises g..<promises g + length (submitted es)] \<and>
     signalingState (pc (run b es g)) = closed"
proof (induction es arbitrary: g)
  case Nil
  then show ?case by simp
next
  case (Cons e es)
  show ?case
  proof (cases e)
    case (Submit c)
    let ?g1 = "g\<lparr>promises := Suc (promises g),
          settlements := settlements g @
            [(promises g, Rejected (Error ''PeerConnection object is closed''))]\<rparr>"
    have step: "gate_step b e g = ?g1"
      using Cons.prems(1) Submit by (simp add: submit_closed)
    have "signalingState (pc ?g1) = closed" using Cons.prems(1) by simp
    moreover have "\<forall>e\<in>set es. keeps_closed e" using Cons.prems(2) by simp
    ultimately have IH: "candidatesQueue (run b es ?g1) = candidatesQueue ?g1 \<and>
     addedIceCandidates (pc (run b es ?g1)) = addedIceCandidates (pc ?g1) \<and>
     settlements (run b es ?g1) =
       settlements ?g1 @
         map (\<lambda>k. (k, Rejected (Error ''PeerConnection object is closed'')))
           [promises ?g1..<promises ?g1 + length (submitted es)] \<and>
     signalingState (pc (run b es ?g1)) = closed"
      by (rule Cons.IH)
    have "[promises g..<promises g + length (submitted (e # es))] =
        promises g # [Suc (promises g)..<Suc (promises g) + length (submitted es)]"
      using Submit by (subst upt_rec) simp
    with IH step Submit show ?thesis by simp
  next
    case (SignalingStateChange s rd)
    let ?g1 = "g\<lparr>pc := (pc g)\<lparr>signalingState := s, remoteDescription := rd\<rparr>\<rparr>"
    have s: "s = closed" using Cons.prems(2) SignalingStateChange by simp
    then have step: "gate_step b e g = ?g1"
      using SignalingStateChange by (simp add: onsignalingstatechange_def)
    have "signalingState (pc ?g1) = closed" using s by simp
    moreover have "\<forall>e\<in>set es. keeps_closed e" using Cons.prems(2) by simp
    ultimately have "candidatesQueue (run b es ?g1) = candidatesQueue ?g1 \<and>
     addedIceCandidates (pc (run b es ?g1)) = addedIceCandidates (pc ?g1) \<and>
     settlements (run b es ?g1) =
       settlements ?g1 @
         map (\<lambda>k. (k, Rejected (Error ''PeerConnection object is closed'')))
           [promises ?g1..<promises ?g1 + length (submitted es)] \<and>
     signalingState (pc (run b es ?g1)) = closed"
      by (rule Cons.IH)
    with step SignalingStateChange show ?thesis by simp
  qed
qed

subsection \<open>Submitting to a closed or a stable connection\<close>

text \<open>
  \<^bold>\<open>C4\<close>. For every candidate submitted through the gate: on a closed connection the
  promise is rejected at once with \<open>Error('PeerConnection object is closed')\<close>, and
  neither the queue nor the connection changes; on a stable connection with no remote
  description it is rejected at once with \<open>Error('No Remote Description')\<close>; on a
  stable connection with a remote description the candidate is handed to
  \<open>pc.addIceCandidate\<close> now, and the promise resolves when that call succeeds and is
  rejected with its error when it fails.
\<close>

theorem submit_closed_or_stable:
  "(signalingState (pc g) = closed \<longrightarrow>
      submit b c g =
        (promises g,
         g\<lparr>promises := Suc (promises g),
           settlements := settlements g @
             [(promises g, Rejected (Error ''PeerConnection object is closed''))]\<rparr>) \<and>
      candidatesQueue (snd (submit b c g)) = candidatesQueue g \<and>
      pc (snd (submit b c g)) = pc g) \<and>
   (signalingState (pc g) = stable \<and> remoteDescription (pc g) = None \<longrightarrow>
      submit b c g =
        (promises g,
         g\<lparr>promises := Suc (promises g),
           settlements := settlements g @
             [(promises g, Rejected (Error ''No Remote Description''))]\<rparr>)) \<and>
   (signalingState (pc g) = stable \<and> remoteDescription (pc g) \<noteq> None \<longrightarrow>
      submit b c g =
        (promises g,
         g\<lparr>promises := Suc (promises g),
           pc := (pc g)\<lparr>addedIceCandidates := addedIceCandidates (pc g) @ [c]\<rparr>,
           settlements := settlements g @
             [(promises g, settle (addIceCandidate_outcome b (pc g) c))]\<rparr>))"
  by (simp add: submit_closed submit_no_remote_description submit_stable)

text \<open>
  The three cases on a new gate, and a browser that refuses the candidate.
\<close>

theorem submit_closed_or_stable_witness:
  "submit plain_browser ''candidate:1'' (bufferizeCandidates (new_connection\<lparr>signalingState := closed\<rparr>)) =
     (0, \<lparr>pc = new_connection\<lparr>signalingState := closed\<rparr>, candidatesQueue = [], promises = 1,
          settlements = [(0, Rejected (Error ''PeerConnection object is closed''))]\<rparr>) \<and>
   submit plain_browser ''candidate:1'' (bufferizeCandidates new_connection) =
     (0, \<lparr>pc = new_connection, candidatesQueue = [], promises = 1,
          settlements = [(0, Rejected (Error ''No Remote Description''))]\<rparr>) \<and>
   submit plain_browser ''candidate:1''
       (bufferizeCandidates
          (new_connection\<lparr>remoteDescription := Some \<lparr>type = Answer, sdp = ''v=0''\<rparr>\<rparr>)) =
     (0, \<lparr>pc = new_connection\<lparr>remoteDescription := Some \<lparr>type = Answer, sdp = ''v=0''\<rparr>,
                              addedIceCandidates := [''candidate:1'']\<rparr>,
          candidatesQueue = [], promises = 1, settlements = [(0, Resolved)]\<rparr>) \<and>
   submit (plain_browser\<lparr>addIceCandidate_outcome := \<lambda>c candidate. Some (DOMException ''OperationError'')\<rparr>)
       ''candidate:1''
       (bufferizeCandidates
          (new_connection\<lparr>remoteDescription := Some \<lparr>type = Answer, sdp = ''v=0''\<rparr>\<rparr>)) =
     (0, \<lparr>pc = new_connection\<lparr>remoteDescription := Some \<lparr>type = Answer, sdp = ''v=0''\<rparr>,
                              addedIceCandidates := [''candidate:1'']\<rparr>,
          candidatesQueue = [], promises = 1,
          settlements = [(0, Rejected (DOMException ''OperationError''))]\<rparr>)"
  using submit_closed_or_stable
      [of "bufferizeCandidates (new_connection\<lparr>signalingState := closed\<rparr>)" plain_browser
          "''candidate:1''"]
    submit_closed_or_stable [of "bufferizeCandidates new_connection" plain_browser "''candidate:1''"]
    submit_closed_or_stable
      [of "bufferizeCandidates
             (new_connection\<lparr>remoteDescription := Some \<lparr>type = Answer, sdp = ''v=0''\<rparr>\<rparr>)"
          plain_browser "''candidate:1''"]
    submit_closed_or_stable
      [of "bufferizeCandidates
             (new_connection\<lparr>remoteDescription := Some \<lparr>type = Answer, sdp = ''v=0''\<rparr>\<rparr>)"
          "plain_browser\<lparr>addIceCandidate_outcome := \<lambda>c candidate. Some (DOMException ''OperationError'')\<rparr>"
          "''candidate:1''"]
  by (simp add: bufferizeCandidates_def new_connection_def plain_browser_def settle_def)

subsection \<open>Queueing and the flush\<close>

lemma settled_times_append:
  "settlements g' = settlements g @ new \<Longrightarrow>
     settled_times g' k = settled_times g k + length (filter (\<lambda>s. fst s = k) new)"
  by (simp add: settled_times_def)

lemma flush_all_settled:
  assumes "gate_inv g"
  shows "\<forall>k<promises g. settled_times (gate_step b (SignalingStateChange stable rd) g) k = 1"
proof (intro allI impI)
  fix k assume k: "k < promises g"
  let ?g2 = "gate_step b (SignalingStateChange stable rd) g"
  have inv: "gate_inv ?g2" using assms by (rule gate_inv_step)
  have q: "candidatesQueue ?g2 = []" by (simp add: onsignalingstatechange_def)
  have "promises ?g2 = promises g" using promise_ids_state_change [of b stable rd g] by blast
  with k have "k < promises ?g2" by simp
  with gate_inv_settled_or_queued [OF inv] q show "settled_times ?g2 k = 1" by fastforce
qed

text \<open>
  \<^bold>\<open>C2\<close>. Take a gate reached by any events, with its connection in a transitional
  state, and let events follow that keep it transitional: submissions, and changes to
  other transitional states. Then (1) the submitted candidates are appended to the queue
  in submission order, each with its own promise, nothing is applied or settled, and
  the new promises are pending. When the connection next moves to \<open>stable\<close>, (2) every
  queued candidate is handed to \<open>pc.addIceCandidate\<close> in queue order, whatever the
  outcomes of the others; (3) the queue is empty afterwards; (4) the promises settle in
  that order, the \<open>i\<close>-th with the outcome of its own call (made on the connection as
  the first \<open>i\<close> calls left it); (5) every promise the gate has returned is then settled
  exactly once; and (6) no later state change, into \<open>stable\<close> or not, applies or
  settles anything again.
\<close>

theorem gate_queues_then_flushes_in_order:
  assumes "g = run b earlier (bufferizeCandidates conn)"
    and "transitional (signalingState (pc g))"
    and "\<forall>e\<in>set es. keeps_transitional e"
  shows
    "let g1 = run b es g;
         q = candidatesQueue g1;
         c2 = (pc g1)\<lparr>signalingState := stable, remoteDescription := rd\<rparr>;
         g2 = gate_step b (SignalingStateChange stable rd) g1
     in q = candidatesQueue g @
              zip (submitted es) [promises g..<promises g + length (submitted es)] \<and>
        settlements g1 = settlements g \<and>
        addedIceCandidates (pc g1) = addedIceCandidates (pc g) \<and>
        (\<forall>k. promises g \<le> k \<and> k < promises g + length (submitted es) \<longrightarrow> pending g1 k) \<and>
        addedIceCandidates (pc g2) = addedIceCandidates (pc g1) @ map fst q \<and>
        candidatesQueue g2 = [] \<and>
        map fst (settlements g2) = map fst (settlements g1) @ map snd q \<and>
        (\<forall>i<length q.
           settlements g2 ! (length (settlements g1) + i) =
             (snd (q ! i),
              settle (addIceCandidate_outcome b
                        (c2\<lparr>addedIceCandidates := addedIceCandidates c2 @ map fst (take i q)\<rparr>)
                        (fst (q ! i))))) \<and>
        (\<forall>k<promises g2. settled_times g2 k = 1) \<and>
        (\<forall>s' rd'.
           addedIceCandidates (pc (gate_step b (SignalingStateChange s' rd') g2)) =
             addedIceCandidates (pc g2) \<and>
           settlements (gate_step b (SignalingStateChange s' rd') g2) = settlements g2)"
proof -
  define g1 where "g1 = run b es g"
  define q where "q = candidatesQueue g1"
  define c2 where "c2 = (pc g1)\<lparr>signalingState := stable, remoteDescription := rd\<rparr>"
  define g1' where "g1' = g1\<lparr>pc := c2\<rparr>"
  define g2 where "g2 = gate_step b (SignalingStateChange stable rd) g1"
  have inv: "gate_inv g" using assms(1) by (simp add: gate_inv_run gate_inv_initial)
  have inv1: "gate_inv g1" using inv by (simp add: g1_def gate_inv_run)
  have waiting: "q = candidatesQueue g @
        zip (submitted es) [promises g..<promises g + length (submitted es)]"
    "settlements g1 = settlements g"
    "addedIceCandidates (pc g1) = addedIceCandidates (pc g)"
    "promises g1 = promises g + length (submitted es)"
    using run_transitional [OF assms(2,3), of b] by (simp_all add: g1_def q_def)
  have pend: "\<forall>k. promises g \<le> k \<and> k < promises g + length (submitted es) \<longrightarrow> pending g1 k"
  proof (intro allI impI)
    fix k assume k: "promises g \<le> k \<and> k < promises g + length (submitted es)"
    have "set (map fst (settlements g)) \<subseteq> {..<promises g}"
      using inv by (auto simp: gate_inv_def promise_ids_def)
    with k have "k \<notin> set (map fst (settlements g1))" using waiting(2) by auto
    with k waiting(4) show "pending g1 k" by (simp add: pending_def)
  qed
  have g2: "g2 = (flush b q g1')\<lparr>candidatesQueue := []\<rparr>"
    by (simp add: g2_def g1'_def c2_def q_def onsignalingstatechange_def)
  have added: "addedIceCandidates (pc g2) = addedIceCandidates (pc g1) @ map fst q"
    by (simp add: g2 flush_added g1'_def c2_def)
  have empty: "candidatesQueue g2 = []" by (simp add: g2)
  have ids: "map fst (settlements g2) = map fst (settlements g1) @ map snd q"
    by (simp add: g2 flush_settled_ids g1'_def)
  have each: "\<forall>i<length q.
           settlements g2 ! (length (settlements g1) + i) =
             (snd (q ! i),
              settle (addIceCandidate_outcome b
                        (c2\<lparr>addedIceCandidates := addedIceCandidates c2 @ map fst (take i q)\<rparr>)
                        (fst (q ! i))))"
    using flush_settlement_nth [of _ q b g1'] by (simp add: g2 g1'_def)
  have once: "\<forall>k<promises g2. settled_times g2 k = 1"
    using flush_all_settled [OF inv1, of b rd] promise_ids_state_change [of b stable rd g1]
    by (simp add: g2_def del: gate_step.simps)
  have again: "\<forall>s' rd'.
           addedIceCandidates (pc (gate_step b (SignalingStateChange s' rd') g2)) =
             addedIceCandidates (pc g2) \<and>
           settlements (gate_step b (SignalingStateChange s' rd') g2) = settlements g2"
    using empty by (simp add: onsignalingstatechange_def)
  from waiting(1-3) pend added empty ids each once again show ?thesis
    unfolding Let_def g1_def [symmetric] q_def [symmetric] c2_def [symmetric] g2_def [symmetric]
    by blast
qed

text \<open>
  A run with a browser that refuses the second of three queued candidates: all three
  are applied in order, the second promise is rejected, the other two resolve.
\<close>

theorem gate_queues_then_flushes_in_order_witness:
  "transitional have_local_offer \<and>
   candidatesQueue
     (run picky_browser
        [SignalingStateChange have_local_offer None, Submit ''candidate:1'', Submit ''bad'',
         SignalingStateChange have_remote_pranswer None, Submit ''candidate:3'']
        (bufferizeCandidates new_connection)) =
     [(''candidate:1'', 0), (''bad'', 1), (''candidate:3'', 2)] \<and>
   settlements
     (run picky_browser
        [SignalingStateChange have_local_offer None, Submit ''candidate:1'', Submit ''bad'',
         SignalingStateChange have_remote_pranswer None, Submit ''candidate:3'']
        (bufferizeCandidates new_connection)) = [] \<and>
   addedIceCandidates (pc
     (run picky_browser
        [SignalingStateChange have_local_offer None, Submit ''candidate:1'', Submit ''bad'',
         SignalingStateChange have_remote_pranswer None, Submit ''candidate:3'',
         SignalingStateChange stable (Some \<lparr>type = Answer, sdp = ''v=0''\<rparr>)]
        (bufferizeCandidates new_connection))) =
     [''candidate:1'', ''bad'', ''candidate:3''] \<and>
   settlements
     (run picky_browser
        [SignalingStateChange have_local_offer None, Submit ''candidate:1'', Submit ''bad'',
         SignalingStateChange have_remote_pranswer None, Submit ''candidate:3'',
         SignalingStateChange stable (Some \<lparr>type = Answer, sdp = ''v=0''\<rparr>)]
        (bufferizeCandidates new_connection)) =
     [(0, Resolved), (1, Rejected (DOMException ''OperationError'')), (2, Resolved)] \<and>
   candidatesQueue
     (run picky_browser
        [SignalingStateChange have_local_offer None, Submit ''candidate:1'', Submit ''bad'',
         SignalingStateChange have_remote_pranswer None, Submit ''candidate:3'',
         SignalingStateChange stable (Some \<lparr>type = Answer, sdp = ''v=0''\<rparr>)]
        (bufferizeCandidates new_connection)) = []"
  using gate_queues_then_flushes_in_order
    [OF refl,
     where b = picky_browser and earlier = "[SignalingStateChange have_local_offer None]"
       and conn = new_connection
       and es = "[Submit ''candidate:1'', Submit ''bad'',
                  SignalingStateChange have_remote_pranswer None, Submit ''candidate:3'']"
       and rd = "Some \<lparr>type = Answer, sdp = ''v=0''\<rparr>"]
  by (simp add: picky_browser_def plain_browser_def new_connection_def bufferizeCandidates_def
      transitional_def onsignalingstatechange_def submit_def pc_addIceCandidate_def settle_def
      Let_def)

subsection \<open>Closing the connection\<close>

text \<open>
  \<^bold>\<open>C3\<close>, as the claim states it, fails: the listener returns at once in every
  state but \<open>stable\<close>, so a move to \<open>closed\<close> settles nothing. Below, a candidate is
  submitted after a local offer, the connection closes, and a second candidate is
  submitted: the second promise is rejected at once, the first is still pending and
  still queued.
\<close>

theorem gate_close_leaves_queued_pending:
  "settled_times
     (run plain_browser
        [SignalingStateChange have_local_offer None, Submit ''candidate:1'',
         SignalingStateChange closed None, Submit ''candidate:2'']
        (bufferizeCandidates new_connection)) 0 = 0 \<and>
   pending
     (run plain_browser
        [SignalingStateChange have_local_offer None, Submit ''candidate:1'',
         SignalingStateChange closed None, Submit ''candidate:2'']
        (bufferizeCandidates new_connection)) 0 \<and>
   candidatesQueue
     (run plain_browser
        [SignalingStateChange have_local_offer None, Submit ''candidate:1'',
         SignalingStateChange closed None, Submit ''candidate:2'']
        (bufferizeCandidates new_connection)) = [(''candidate:1'', 0)] \<and>
   settlements
     (run plain_browser
        [SignalingStateChange have_local_offer None, Submit ''candidate:1'',
         SignalingStateChange closed None, Submit ''candidate:2'']
        (bufferizeCandidates new_connection)) =
     [(1, Rejected (Error ''PeerConnection object is closed''))]"
  by (simp add: plain_browser_def new_connection_def bufferizeCandidates_def
      onsignalingstatechange_def submit_def reject_def settled_times_def pending_def Let_def)

text \<open>
  \<^bold>\<open>C3\<close>, amended. For every gate reached from \<open>bufferizeCandidates\<close> by any events:
  every promise the gate has returned is either settled exactly once or not settled and
  waiting in the queue; a move of the connection into \<open>stable\<close> empties the queue and
  leaves every promise settled exactly once; a move into \<open>closed\<close> rejects nothing,
  and for as long as the connection stays closed the queue stays as it was, the promises
  in it stay unsettled, and each new submission is rejected at once with
  \<open>Error('PeerConnection object is closed')\<close>.
\<close>

theorem gate_settles_once_or_keeps_waiting:
  assumes "g = run b earlier (bufferizeCandidates conn)"
  shows
    "(\<forall>k<promises g.
        (settled_times g k = 1 \<and> k \<notin> snd ` set (candidatesQueue g)) \<or>
        (settled_times g k = 0 \<and> k \<in> snd ` set (candidatesQueue g))) \<and>
     (\<forall>rd. candidatesQueue (gate_step b (SignalingStateChange stable rd) g) = [] \<and>
           (\<forall>k<promises g. settled_times (gate_step b (SignalingStateChange stable rd) g) k = 1)) \<and>
     (\<forall>rd es. (\<forall>e\<in>set es. keeps_closed e) \<longrightarrow>
        candidatesQueue (run b (SignalingStateChange closed rd # es) g) = candidatesQueue g \<and>
        (\<forall>k \<in> snd ` set (candidatesQueue g).
           settled_times (run b (SignalingStateChange closed rd # es) g) k = 0) \<and>
        settlements (run b (SignalingStateChange closed rd # es) g) =
          settlements g @
            map (\<lambda>k. (k, Rejected (Error ''PeerConnection object is closed'')))
              [promises g..<promises g + length (submitted es)])"
proof -
  have inv: "gate_inv g" using assms by (simp add: gate_inv_run gate_inv_initial)
  have once_or_queued: "\<forall>k<promises g.
        (settled_times g k = 1 \<and> k \<notin> snd ` set (candidatesQueue g)) \<or>
        (settled_times g k = 0 \<and> k \<in> snd ` set (candidatesQueue g))"
    using gate_inv_settled_or_queued [OF inv] by blast
  have emptied: "candidatesQueue (gate_step b (SignalingStateChange stable rd) g) = []" for rd
    by (simp add: onsignalingstatechange_def)
  have at_stable: "\<forall>rd. candidatesQueue (gate_step b (SignalingStateChange stable rd) g) = [] \<and>
           (\<forall>k<promises g. settled_times (gate_step b (SignalingStateChange stable rd) g) k = 1)"
    using emptied flush_all_settled [OF inv, of b] by blast
  have at_closed: "candidatesQueue (run b (SignalingStateChange closed rd # es) g) = candidatesQueue g \<and>
        (\<forall>k \<in> snd ` set (candidatesQueue g).
           settled_times (run b (SignalingStateChange closed rd # es) g) k = 0) \<and>
        settlements (run b (SignalingStateChange closed rd # es) g) =
          settlements g @
            map (\<lambda>k. (k, Rejected (Error ''PeerConnection object is closed'')))
              [promises g..<promises g + length (submitted es)]"
    if es: "\<forall>e\<in>set es. keeps_closed e" for rd es
  proof -
    let ?g1 = "g\<lparr>pc := (pc g)\<lparr>signalingState := closed, remoteDescription := rd\<rparr>\<rparr>"
    let ?g2 = "run b (SignalingStateChange closed rd # es) g"
    have step: "?g2 = run b es ?g1"
      by (simp add: onsignalingstatechange_def)
    have "signalingState (pc ?g1) = closed" by simp
    from run_closed [OF this es, of b]
    have r: "candidatesQueue (run b es ?g1) = candidatesQueue g"
      "settlements (run b es ?g1) =
         settlements g @
           map (\<lambda>k. (k, Rejected (Error ''PeerConnection object is closed'')))
             [promises g..<promises g + length (submitted es)]"
      by simp_all
    have q: "candidatesQueue ?g2 = candidatesQueue g"
      using step r(1) by simp
    have s: "settlements ?g2 =
          settlements g @
            map (\<lambda>k. (k, Rejected (Error ''PeerConnection object is closed'')))
              [promises g..<promises g + length (submitted es)]"
      using step r(2) by simp
    have z: "settled_times ?g2 k = 0" if k: "k \<in> snd ` set (candidatesQueue g)" for k
    proof -
      have "set (promise_ids g) = {..<promises g}" using inv by (simp add: gate_inv_def)
      with k have lt: "k < promises g" by (auto simp: promise_ids_def)
      with gate_inv_settled_or_queued [OF inv lt] k have zero: "settled_times g k = 0" by blast
      have "filter (\<lambda>s. fst s = k)
            (map (\<lambda>k. (k, Rejected (Error ''PeerConnection object is closed'')))
              [promises g..<promises g + length (submitted es)]) = []"
        using lt by (auto simp: filter_empty_conv)
      with settled_times_append [OF s, of k] zero show ?thesis by simp
    qed
    show ?thesis
    proof (intro conjI ballI)
      show "candidatesQueue ?g2 = candidatesQueue g" by (rule q)
      show "settled_times ?g2 k = 0" if "k \<in> snd ` set (candidatesQueue g)" for k
        using that by (rule z)
      show "settlements ?g2 =
          settlements g @
            map (\<lambda>k. (k, Rejected (Error ''PeerConnection object is closed'')))
              [promises g..<promises g + length (submitted es)]" by (rule s)
    qed
  qed
  show ?thesis
  proof (intro conjI allI impI)
    show "(settled_times g k = 1 \<and> k \<notin> snd ` set (candidatesQueue g)) \<or>
        (settled_times g k = 0 \<and> k \<in> snd ` set (candidatesQueue g))" if "k < promises g" for k
      using that once_or_queued by blast
    show "candidatesQueue (gate_step b (SignalingStateChange stable rd) g) = []" for rd
      by (rule emptied)
    show "settled_times (gate_step b (SignalingStateChange stable rd) g) k = 1"
      if "k < promises g" for rd k
      using that flush_all_settled [OF inv, of b rd] by blast
    show "candidatesQueue (run b (SignalingStateChange closed rd # es) g) = candidatesQueue g"
      if "\<forall>e\<in>set es. keeps_closed e" for rd es
      using at_closed [OF that] by (rule conjunct1)
    show "\<forall>k \<in> snd ` set (candidatesQueue g).
           settled_times (run b (SignalingStateChange closed rd # es) g) k = 0"
      if "\<forall>e\<in>set es. keeps_closed e" for rd es
      using at_closed [OF that] by (rule conjunct1 [OF conjunct2])
    show "settlements (run b (SignalingStateChange closed rd # es) g) =
          settlements g @
            map (\<lambda>k. (k, Rejected (Error ''PeerConnection object is closed'')))
              [promises g..<promises g + length (submitted es)]"
      if "\<forall>e\<in>set es. keeps_closed e" for rd es
      using at_closed [OF that] by (rule conjunct2 [OF conjunct2])
  qed
qed



text \<open>At the gate with one candidate waiting.\<close>

theorem gate_settles_once_or_keeps_waiting_witness:
  "keeps_closed (Submit ''candidate:2'') \<and>
   candidatesQueue waiting_gate = [(''candidate:1'', 0)] \<and>
   settled_times waiting_gate 0 = 0 \<and>
   candidatesQueue
     (run plain_browser [SignalingStateChange closed None, Submit ''candidate:2''] waiting_gate) =
     [(''candidate:1'', 0)] \<and>
   settled_times
     (run plain_browser [SignalingStateChange closed None, Submit ''candidate:2''] waiting_gate) 0 = 0 \<and>
   settlements
     (run plain_browser [SignalingStateChange closed None, Submit ''candidate:2''] waiting_gate) =
     [(1, Rejected (Error ''PeerConnection object is closed''))] \<and>
   settled_times
     (gate_step plain_browser (SignalingStateChange stable (Some \<lparr>type = Answer, sdp = ''v=0''\<rparr>))
        waiting_gate) 0 = 1"
proof -
  note t = gate_settles_once_or_keeps_waiting [OF waiting_gate_def]
  have q: "candidatesQueue waiting_gate = [(''candidate:1'', 0)]"
    and p: "promises waiting_gate = 1" and s: "settlements waiting_gate = []"
    by (simp_all add: waiting_gate_def plain_browser_def new_connection_def
        bufferizeCandidates_def onsignalingstatechange_def submit_def Let_def)
  have k: "\<forall>e\<in>set [Submit ''candidate:2'']. keeps_closed e" by simp
  note c = t [THEN conjunct2, THEN conjunct2, THEN spec, THEN spec, THEN mp, OF k]
  note st = t [THEN conjunct2, THEN conjunct1, THEN spec, THEN conjunct2, THEN spec, THEN mp]
  have "settled_times waiting_gate 0 = 0"
    using t [THEN conjunct1, THEN spec, THEN mp, of 0] q p by simp
  moreover have "settled_times
     (gate_step plain_browser (SignalingStateChange stable (Some \<lparr>type = Answer, sdp = ''v=0''\<rparr>))
        waiting_gate) 0 = 1"
    using st [of 0 "Some \<lparr>type = Answer, sdp = ''v=0''\<rparr>"] p by simp
  moreover have "candidatesQueue
     (run plain_browser [SignalingStateChange closed None, Submit ''candidate:2''] waiting_gate) =
     [(''candidate:1'', 0)]"
    using c [THEN conjunct1, of None] q by simp
  moreover have "settled_times
     (run plain_browser [SignalingStateChange closed None, Submit ''candidate:2''] waiting_gate) 0 = 0"
    using c [THEN conjunct2, THEN conjunct1, of None] q by simp
  moreover have "settlements
     (run plain_browser [SignalingStateChange closed None, Submit ''candidate:2''] waiting_gate) =
     [(1, Rejected (Error ''PeerConnection object is closed''))]"
    using c [THEN conjunct2, THEN conjunct2, of None] p s by simp
  ultimately show ?thesis using q by simp
qed

end
